theory Spec2Isabelle
  imports Complex_Main "HOL-Library.AList"
begin

section \<open>Live polling backend: the poll session engine of \<open>src/server.js\<close>\<close>

text \<open>
  The engine keeps six module-level variables (\<open>polls\<close>, \<open>pollHistory\<close>,
  \<open>activeParticipants\<close>, \<open>chatMessages\<close>, \<open>kickedOutStudents\<close>, \<open>currentPoll\<close>), mutated
  by HTTP handlers, socket handlers and one interval timer per started poll. Every handler
  runs to completion before the next one, so the embedding is a state record and one
  function per handler that returns the reply together with the new state. Two more
  fields of the record stand for what the runtime holds: \<open>timers\<close>, the polls whose
  interval is running (set by \<open>setInterval\<close>, cleared by \<open>clearInterval\<close>), and
  \<open>sockets\<close>, the connected sockets of socket.io with the attributes the handlers put on
  them.

  Conventions of the embedding.
  \<^item> A JavaScript \<open>Map\<close> and a plain object used as a dictionary are association lists in
    insertion order: \<open>map_of\<close> reads a key, \<open>AList.update\<close> writes it (an existing key
    keeps its place, a new key goes to the end), \<open>AList.delete\<close> removes it. Keys are
    taken not to be names of \<open>Object.prototype\<close> properties.
  \<^item> Request fields are typed: texts are strings, \<open>options\<close> is a list of strings,
    \<open>duration\<close> and \<open>correctAnswer\<close> are integers or absent. A text field that is absent
    is the empty string: the handlers only test such fields for truthiness.
  \<^item> A text is the sequence of the bytes of its UTF-8 encoding; the handlers compare
    texts for equality and test them for emptiness, which the encoding preserves.
  \<^item> \<open>uuidv4()\<close>, the socket id given by socket.io and the clock (\<open>Date.now()\<close>, in
    milliseconds) are arguments of the handlers.
  \<^item> A poll object is identified with its id: \<open>currentPoll\<close> and the timers refer to a
    poll by the key under which \<open>polls\<close> holds it.
  \<^item> Broadcasts (\<open>io.emit\<close>) and logging do not change the state and are left out; the
    notice sent to one socket by \<open>joinParticipant\<close> is its reply.
\<close>

subsection \<open>Numbers: \<open>Math.round((count / total) * 100)\<close> on binary64\<close>

text \<open>
  Counts are small non-negative integers, exact as binary64 numbers. The quotient and the
  product are rounded to the nearest binary64 value (ties to even), as IEEE 754 prescribes;
  a binary64 value is given by a significand and an exponent, \<open>(m, e)\<close> standing for
  \<open>m * 2 ^ e\<close>. Only the normal range is modelled: a percentage never leaves it.
\<close>

function bit_length :: "int \<Rightarrow> int" where
  "bit_length n = (if n \<le> 0 then 0 else 1 + bit_length (n div 2))"
  by pat_completeness auto
termination
  by (relation "measure nat") auto

declare bit_length.simps [simp del]

definition round_half_even :: "int \<Rightarrow> int \<Rightarrow> int" where
  \<comment> \<open>\<open>a / b\<close> rounded to the nearest integer, ties to the even one (\<open>0 \<le> a\<close>, \<open>0 < b\<close>)\<close>
  "round_half_even a b =
     (let q = a div b; r = a mod b
      in if 2 * r < b then q else if b < 2 * r then q + 1 else if even q then q else q + 1)"

definition to_double :: "int \<Rightarrow> int \<Rightarrow> int \<times> int" where
  \<comment> \<open>the binary64 value nearest to the rational \<open>a / b\<close> (\<open>0 \<le> a\<close>, \<open>0 < b\<close>)\<close>
  "to_double a b =
     (if a = 0 then (0, 0)
      else
        let k = bit_length a - bit_length b;
            l = (if (if 0 \<le> k then b * 2 ^ nat k \<le> a else b \<le> a * 2 ^ nat (- k)) then k else k - 1);
            e = l - 52
        in (if 0 \<le> e then round_half_even a (b * 2 ^ nat e)
            else round_half_even (a * 2 ^ nat (- e)) b, e))"

definition js_div :: "int \<Rightarrow> int \<Rightarrow> int \<times> int" where
  \<comment> \<open>\<open>a / b\<close> of two integer-valued numbers (\<open>0 \<le> a\<close>, \<open>0 < b\<close>)\<close>
  "js_div a b = to_double a b"

definition js_times :: "int \<times> int \<Rightarrow> int \<Rightarrow> int \<times> int" where
  \<comment> \<open>\<open>x * c\<close> for a binary64 \<open>x\<close> and an integer-valued \<open>c\<close>, both non-negative\<close>
  "js_times x c =
     (case x of (m, e) \<Rightarrow>
        if 0 \<le> e then to_double (c * m * 2 ^ nat e) 1 else to_double (c * m) (2 ^ nat (- e)))"

definition Math_round :: "int \<times> int \<Rightarrow> int" where
  \<comment> \<open>nearest integer, a tie going up: \<open>floor (x + 1/2)\<close>\<close>
  "Math_round x =
     (case x of (m, e) \<Rightarrow>
        if 0 \<le> e then m * 2 ^ nat e else (2 * m + 2 ^ nat (- e)) div 2 ^ nat (1 - e))"

definition js_percentage :: "nat \<Rightarrow> nat \<Rightarrow> int" where
  \<comment> \<open>\<open>Math.round((count / total) * 100)\<close> for a count and a positive total\<close>
  "js_percentage c t = Math_round (js_times (js_div (int c) (int t)) 100)"

definition val :: "int \<times> int \<Rightarrow> real" where
  \<comment> \<open>the real number that a significand and an exponent stand for\<close>
  "val x = (case x of (m, e) \<Rightarrow> of_int m * 2 powr of_int e)"

text \<open>
  The rule in the words of the specification: the ratio of count to total, times 100,
  rounded to the nearest integer with a half going up, computed exactly. A tie is a ratio
  whose hundredfold lies exactly half way between two integers.
\<close>

definition round_half_up :: "nat \<Rightarrow> nat \<Rightarrow> int" where
  "round_half_up c t = (200 * int c + int t) div (2 * int t)"

definition is_tie :: "nat \<Rightarrow> nat \<Rightarrow> bool" where
  "is_tie c t \<longleftrightarrow> (200 * int c + int t) mod (2 * int t) = 0"

subsection \<open>Texts\<close>

definition white_space :: "string list" where
  \<comment> \<open>what \<open>String.prototype.trim\<close> strips, in UTF-8: the white space code points U+0009,
      U+000B, U+000C, U+0020, U+00A0, U+1680, U+2000 to U+200A, U+202F, U+205F, U+3000 and
      U+FEFF, and the line terminators U+000A, U+000D, U+2028 and U+2029\<close>
  "white_space =
     map (\<lambda>c. [c]) [CHR 0x09, CHR 0x0A, CHR 0x0B, CHR 0x0C, CHR 0x0D, CHR 0x20] @
     [[CHR 0xC2, CHR 0xA0], [CHR 0xE1, CHR 0x9A, CHR 0x80]] @
     map (\<lambda>c. [CHR 0xE2, CHR 0x80, c])
       [CHR 0x80, CHR 0x81, CHR 0x82, CHR 0x83, CHR 0x84, CHR 0x85, CHR 0x86, CHR 0x87,
        CHR 0x88, CHR 0x89, CHR 0x8A, CHR 0xA8, CHR 0xA9, CHR 0xAF] @
     [[CHR 0xE2, CHR 0x81, CHR 0x9F], [CHR 0xE3, CHR 0x80, CHR 0x80],
      [CHR 0xEF, CHR 0xBB, CHR 0xBF]]"

function strip_leading :: "string list \<Rightarrow> string \<Rightarrow> string" where
  \<comment> \<open>removes from the front every occurrence of one of the given byte sequences\<close>
  "strip_leading ws s =
     (case find (\<lambda>w. w \<noteq> [] \<and> take (length w) s = w) ws of
        None \<Rightarrow> s
      | Some w \<Rightarrow> strip_leading ws (drop (length w) s))"
  by pat_completeness auto
termination
proof (relation "measure (\<lambda>(ws, s). length s)")
  show "wf (measure (\<lambda>(ws, s). length s))"
    by simp
next
  fix ws :: "string list" and s w :: string
  assume "find (\<lambda>w. w \<noteq> [] \<and> take (length w) s = w) ws = Some w"
  then have w: "w \<noteq> []" "take (length w) s = w"
    by (auto simp: find_Some_iff)
  then have "s \<noteq> []"
    by auto
  with w(1) show "((ws, drop (length w) s), (ws, s)) \<in> measure (\<lambda>(ws, s). length s)"
    by simp
qed

declare strip_leading.simps [simp del]

definition trim :: "string \<Rightarrow> string" where
  "trim s = rev (strip_leading (map rev white_space) (rev (strip_leading white_space s)))"

definition nth_opt :: "'a list \<Rightarrow> int \<Rightarrow> 'a option" where
  \<comment> \<open>\<open>xs[i]\<close>: \<open>undefined\<close> out of range\<close>
  "nth_opt xs i = (if 0 \<le> i \<and> i < int (length xs) then Some (xs ! nat i) else None)"

subsection \<open>Data\<close>

record tally =
  count :: nat
  participants :: "(string \<times> string) list"

record response =
  studentId :: string
  studentName :: string
  selectedOption :: string
  timestamp :: int
  isCorrect :: bool

record final_result =
  fr_count :: nat
  percentage :: int
  fr_isCorrect :: bool

record summary =
  totalResponses :: nat
  correctResponses :: nat
  incorrectResponses :: nat
  correctPercentage :: int
  incorrectPercentage :: int
  sm_correctAnswer :: "string option"

record poll =
  poll_id :: string
  question :: string
  options :: "string list"
  duration :: int
  correctAnswer :: int
  isActive :: bool
  responses :: "(string \<times> response) list"
  results :: "(string \<times> tally) list"
  startTime :: "int option"
  endTime :: "int option"
  timeLeft :: int
  teacherId :: string
  teacherName :: string
  createdAt :: int
  finalResults :: "(string \<times> final_result) list option"
  poll_summary :: "summary option"

record participant =
  p_id :: string
  p_name :: string
  p_role :: string
  joinedAt :: int

record chat_message =
  msg_id :: string
  message :: string
  senderName :: string
  senderRole :: string
  senderId :: string
  msg_timestamp :: int

record history_entry =
  h_poll :: poll
  h_participants :: "participant list"

record socket =
  sock_role :: "string option"
  sock_studentId :: "string option"
  sock_studentName :: "string option"
  sock_teacherId :: "string option"
  sock_teacherName :: "string option"

record state =
  polls :: "(string \<times> poll) list"
  pollHistory :: "history_entry list"
  activeParticipants :: "(string \<times> participant) list"
  chatMessages :: "chat_message list"
  kickedOutStudents :: "string set"
  currentPoll :: "string option"
  timers :: "string list"
  sockets :: "(string \<times> socket) list"

definition init :: state where
  "init = \<lparr>polls = [], pollHistory = [], activeParticipants = [], chatMessages = [],
           kickedOutStudents = {}, currentPoll = None, timers = [], sockets = []\<rparr>"

text \<open>The HTTP error statuses the handlers answer with: 400, 403, 404 and 409.\<close>

datatype error = ValidationError | ForbiddenError | NotFoundError | ConflictError

record create_request =
  rq_question :: string
  rq_options :: "string list"
  rq_duration :: "int option"
  rq_teacherId :: string
  rq_teacherName :: string
  rq_correctAnswer :: "int option"

subsection \<open>HTTP handlers\<close>

definition createPollResponse :: "poll \<Rightarrow> poll" where
  \<comment> \<open>copies every field; an absent \<open>finalResults\<close> becomes the empty object\<close>
  "createPollResponse p =
     p\<lparr>finalResults := Some (case finalResults p of None \<Rightarrow> [] | Some f \<Rightarrow> f)\<rparr>"

record current_reply =
  cr_poll :: "poll option"
  cr_message :: "string option"
  cr_participants :: "participant list option"
  cr_chatMessages :: "chat_message list option"

definition getCurrentPoll :: "state \<Rightarrow> current_reply" where
  \<comment> \<open>\<open>GET /api/poll/current\<close>; a key the JSON reply does not carry is \<open>None\<close>\<close>
  "getCurrentPoll s =
     (case currentPoll s of
        None \<Rightarrow> \<lparr>cr_poll = None, cr_message = Some ''No active poll'',
                 cr_participants = None, cr_chatMessages = None\<rparr>
      | Some c \<Rightarrow> \<lparr>cr_poll = map_option createPollResponse (map_of (polls s) c),
                   cr_message = None,
                   cr_participants = Some (map snd (activeParticipants s)),
                   cr_chatMessages = Some (chatMessages s)\<rparr>)"

definition current_is_active :: "state \<Rightarrow> bool" where
  \<comment> \<open>\<open>currentPoll && currentPoll.isActive\<close>\<close>
  "current_is_active s =
     (case currentPoll s of
        None \<Rightarrow> False
      | Some c \<Rightarrow> (case map_of (polls s) c of None \<Rightarrow> False | Some p \<Rightarrow> isActive p))"

definition new_poll :: "int \<Rightarrow> string \<Rightarrow> create_request \<Rightarrow> poll" where
  "new_poll now uuid rq =
     (let d = (case rq_duration rq of None \<Rightarrow> 60 | Some d \<Rightarrow> d);
          ca = (case rq_correctAnswer rq of None \<Rightarrow> 0 | Some c \<Rightarrow> c)
      in \<lparr>poll_id = uuid,
          question = trim (rq_question rq),
          options = filter (\<lambda>opt. 0 < length opt) (map trim (rq_options rq)),
          duration = min (max d 10) 300,
          correctAnswer = max 0 (min ca (int (length (rq_options rq)) - 1)),
          isActive = False,
          responses = [],
          results = [],
          startTime = None,
          endTime = None,
          timeLeft = d,
          teacherId = rq_teacherId rq,
          teacherName = rq_teacherName rq,
          createdAt = now,
          finalResults = None,
          poll_summary = None\<rparr>)"

definition createPoll :: "int \<Rightarrow> string \<Rightarrow> create_request \<Rightarrow> state \<Rightarrow> (error + poll) \<times> state" where
  \<comment> \<open>\<open>POST /api/poll/create\<close>\<close>
  "createPoll now uuid rq s =
     (if rq_question rq = [] \<or> length (rq_options rq) < 2 then (Inl ValidationError, s)
      else if rq_teacherId rq = [] \<or> rq_teacherName rq = [] then (Inl ValidationError, s)
      else if current_is_active s then (Inl ConflictError, s)
      else
        let p = new_poll now uuid rq
        in (Inr (createPollResponse p),
            s\<lparr>polls := AList.update uuid p (polls s), currentPoll := Some uuid\<rparr>))"

definition init_results :: "string list \<Rightarrow> (string \<times> tally) list" where
  \<comment> \<open>\<open>poll.results = {}\<close>, then a zero entry for each option in turn\<close>
  "init_results opts =
     foldl (\<lambda>r opt. AList.update opt \<lparr>count = 0, participants = []\<rparr> r) [] opts"

definition start_poll :: "int \<Rightarrow> poll \<Rightarrow> poll" where
  "start_poll now p =
     p\<lparr>isActive := True,
       startTime := Some now,
       endTime := Some (now + duration p * 1000),
       timeLeft := duration p,
       responses := [],
       results := init_results (options p)\<rparr>"

definition startPoll :: "int \<Rightarrow> string \<Rightarrow> string \<Rightarrow> state \<Rightarrow> (error + poll) \<times> state" where
  \<comment> \<open>\<open>POST /api/poll/:pollId/start\<close>; the interval timer it sets is recorded in \<open>timers\<close>\<close>
  "startPoll now pollId tid s =
     (case map_of (polls s) pollId of
        None \<Rightarrow> (Inl NotFoundError, s)
      | Some p \<Rightarrow>
          if teacherId p \<noteq> tid then (Inl ForbiddenError, s)
          else if isActive p then (Inl ConflictError, s)
          else
            let p' = start_poll now p
            in (Inr (createPollResponse p'),
                s\<lparr>polls := AList.update pollId p' (polls s),
                  chatMessages := [],
                  timers := pollId # timers s\<rparr>))"

definition record_response :: "int \<Rightarrow> string \<Rightarrow> string \<Rightarrow> string \<Rightarrow> poll \<Rightarrow> poll" where
  \<comment> \<open>the accepted branch of the response handler: the response, then the tally\<close>
  "record_response now sid sname opt p =
     (let resp = \<lparr>studentId = sid, studentName = sname, selectedOption = opt, timestamp = now,
                  isCorrect = (nth_opt (options p) (correctAnswer p) = Some opt)\<rparr>;
          r0 = (case map_of (results p) opt of
                  None \<Rightarrow> AList.update opt \<lparr>count = 0, participants = []\<rparr> (results p)
                | Some t \<Rightarrow> results p);
          r1 = (case map_of r0 opt of
                  None \<Rightarrow> r0
                | Some t \<Rightarrow>
                    AList.update opt
                      (t\<lparr>count := count t + 1, participants := participants t @ [(sid, sname)]\<rparr>) r0)
      in p\<lparr>responses := AList.update sid resp (responses p), results := r1\<rparr>)"

definition submitResponse ::
  "int \<Rightarrow> string \<Rightarrow> string \<Rightarrow> string \<Rightarrow> string \<Rightarrow> state \<Rightarrow> (error + bool) \<times> state" where
  \<comment> \<open>\<open>POST /api/poll/:pollId/response\<close>; the reply carries \<open>isCorrect\<close>\<close>
  "submitResponse now pollId sid sname opt s =
     (if sid \<in> kickedOutStudents s then (Inl ForbiddenError, s)
      else
        case map_of (polls s) pollId of
          None \<Rightarrow> (Inl NotFoundError, s)
        | Some p \<Rightarrow>
            if \<not> isActive p then (Inl ValidationError, s)
            else if opt \<notin> set (options p) then (Inl ValidationError, s)
            else if map_of (responses p) sid \<noteq> None then (Inl ConflictError, s)
            else
              (Inr (nth_opt (options p) (correctAnswer p) = Some opt),
               s\<lparr>polls := AList.update pollId (record_response now sid sname opt p) (polls s)\<rparr>))"

definition new_participant :: "int \<Rightarrow> string \<Rightarrow> string \<Rightarrow> participant" where
  "new_participant now sid sname =
     \<lparr>p_id = sid, p_name = sname, p_role = ''student'', joinedAt = now\<rparr>"

definition join :: "int \<Rightarrow> string \<Rightarrow> string \<Rightarrow> state \<Rightarrow> (error + participant) \<times> state" where
  \<comment> \<open>\<open>POST /api/participant/join\<close>\<close>
  "join now sid sname s =
     (if sid = [] \<or> sname = [] then (Inl ValidationError, s)
      else if sid \<in> kickedOutStudents s then (Inl ForbiddenError, s)
      else
        (Inr (new_participant now sid sname),
         s\<lparr>activeParticipants :=
             AList.update sid (new_participant now sid sname) (activeParticipants s)\<rparr>))"

subsection \<open>The timer and \<open>endPoll\<close>\<close>

definition tally_count :: "poll \<Rightarrow> string \<Rightarrow> nat" where
  \<comment> \<open>\<open>poll.results[option]?.count || 0\<close>\<close>
  "tally_count p opt = (case map_of (results p) opt of None \<Rightarrow> 0 | Some t \<Rightarrow> count t)"

fun tally_loop ::
  "poll \<Rightarrow> string list \<Rightarrow> nat \<Rightarrow> (string \<times> final_result) list \<times> nat \<times> nat \<Rightarrow>
   (string \<times> final_result) list \<times> nat \<times> nat" where
  \<comment> \<open>the first \<open>forEach\<close> of \<open>endPoll\<close>, from index \<open>i\<close>: \<open>(finalResults, totalResponses,
      correctResponses)\<close>\<close>
  "tally_loop p [] i acc = acc"
| "tally_loop p (opt # opts) i (fr, tot, cor) =
     (let cnt = tally_count p opt;
          ic = (int i = correctAnswer p)
      in tally_loop p opts (Suc i)
           (AList.update opt \<lparr>fr_count = cnt, percentage = 0, fr_isCorrect = ic\<rparr> fr,
            tot + cnt,
            if ic then cor + cnt else cor))"

fun percentage_loop ::
  "nat \<Rightarrow> string list \<Rightarrow> (string \<times> final_result) list \<Rightarrow> (string \<times> final_result) list" where
  \<comment> \<open>the second \<open>forEach\<close>, run when \<open>totalResponses > 0\<close>\<close>
  "percentage_loop tot [] fr = fr"
| "percentage_loop tot (opt # opts) fr =
     percentage_loop tot opts
       (case map_of fr opt of
          None \<Rightarrow> fr
        | Some r \<Rightarrow> AList.update opt (r\<lparr>percentage := js_percentage (fr_count r) tot\<rparr>) fr)"

definition end_poll :: "int \<Rightarrow> poll \<Rightarrow> poll" where
  \<comment> \<open>what \<open>endPoll\<close> writes into the poll object\<close>
  "end_poll now p =
     (case tally_loop p (options p) 0 ([], 0, 0) of (fr0, tot, cor) \<Rightarrow>
        let fr = (if 0 < tot then percentage_loop tot (options p) fr0 else fr0);
            cp = (if 0 < tot then js_percentage cor tot else 0)
        in p\<lparr>isActive := False,
             endTime := Some now,
             timeLeft := 0,
             finalResults := Some fr,
             poll_summary :=
               Some \<lparr>totalResponses = tot,
                     correctResponses = cor,
                     incorrectResponses = tot - cor,
                     correctPercentage = cp,
                     incorrectPercentage = 100 - cp,
                     sm_correctAnswer = nth_opt (options p) (correctAnswer p)\<rparr>\<rparr>)"

definition endPoll :: "int \<Rightarrow> string \<Rightarrow> poll \<Rightarrow> state \<Rightarrow> state" where
  \<comment> \<open>\<open>endPoll(poll)\<close> for the poll object held under \<open>pollId\<close>; the snapshot pushed to the
      history is the ended poll with the roster of that moment\<close>
  "endPoll now pollId p s =
     (let p' = end_poll now p
      in s\<lparr>polls := AList.update pollId p' (polls s),
           pollHistory :=
             pollHistory s @ [\<lparr>h_poll = p', h_participants = map snd (activeParticipants s)\<rparr>]\<rparr>)"

definition tick :: "int \<Rightarrow> string \<Rightarrow> state \<Rightarrow> state" where
  \<comment> \<open>one firing of the interval that \<open>startPoll\<close> set for the poll; nothing fires for a
      poll without a running interval\<close>
  "tick now pollId s =
     (if pollId \<notin> set (timers s) then s
      else
        case map_of (polls s) pollId of
          None \<Rightarrow> s
        | Some p \<Rightarrow>
            let p1 = p\<lparr>timeLeft := timeLeft p - 1\<rparr>
            in if timeLeft p1 \<le> 0
               then endPoll now pollId p1 (s\<lparr>timers := removeAll pollId (timers s)\<rparr>)
               else s\<lparr>polls := AList.update pollId p1 (polls s)\<rparr>)"

subsection \<open>Socket handlers\<close>

definition new_socket :: socket where
  "new_socket = \<lparr>sock_role = None, sock_studentId = None, sock_studentName = None,
                 sock_teacherId = None, sock_teacherName = None\<rparr>"

definition connect :: "string \<Rightarrow> state \<Rightarrow> state" where
  \<comment> \<open>a client connects: socket.io registers the socket under its id\<close>
  "connect k s = s\<lparr>sockets := AList.update k new_socket (sockets s)\<rparr>"

definition joinTeacher :: "string \<Rightarrow> string \<Rightarrow> string \<Rightarrow> state \<Rightarrow> state" where
  "joinTeacher k tid tname s =
     (case map_of (sockets s) k of
        None \<Rightarrow> s
      | Some sk \<Rightarrow>
          s\<lparr>sockets :=
              AList.update k
                (sk\<lparr>sock_teacherId := Some tid, sock_teacherName := Some tname,
                    sock_role := Some ''teacher''\<rparr>) (sockets s)\<rparr>)"

datatype join_notice = KickedOut | ConnectionEstablished

definition joinParticipant ::
  "int \<Rightarrow> string \<Rightarrow> string \<Rightarrow> string \<Rightarrow> state \<Rightarrow> join_notice option \<times> state" where
  \<comment> \<open>the reply is the event emitted to the joining socket\<close>
  "joinParticipant now k sid sname s =
     (case map_of (sockets s) k of
        None \<Rightarrow> (None, s)
      | Some sk \<Rightarrow>
          if sid \<in> kickedOutStudents s then (Some KickedOut, s)
          else
            (Some ConnectionEstablished,
             s\<lparr>sockets :=
                 AList.update k
                   (sk\<lparr>sock_studentId := Some sid, sock_studentName := Some sname,
                       sock_role := Some ''student''\<rparr>) (sockets s),
               activeParticipants :=
                 AList.update sid (new_participant now sid sname) (activeParticipants s)\<rparr>))"

record message_data =
  md_message :: string
  md_senderName :: string
  md_senderRole :: string
  md_senderId :: string

definition sendMessage :: "int \<Rightarrow> string \<Rightarrow> string \<Rightarrow> message_data \<Rightarrow> state \<Rightarrow> state" where
  "sendMessage now uuid k d s =
     (case map_of (sockets s) k of
        None \<Rightarrow> s
      | Some sk \<Rightarrow>
          if md_senderRole d = ''student'' \<and> md_senderId d \<in> kickedOutStudents s then s
          else
            let msgs = chatMessages s @
                       [\<lparr>msg_id = uuid, message = trim (md_message d),
                         senderName = md_senderName d, senderRole = md_senderRole d,
                         senderId = md_senderId d, msg_timestamp = now\<rparr>]
            in s\<lparr>chatMessages :=
                   (if 100 < length msgs then drop (length msgs - 100) msgs else msgs)\<rparr>)"

definition disconnect :: "string \<Rightarrow> state \<Rightarrow> state" where
  \<comment> \<open>the socket leaves \<open>io.sockets.sockets\<close> and its \<open>disconnect\<close> handler runs\<close>
  "disconnect k s =
     (case map_of (sockets s) k of
        None \<Rightarrow> s
      | Some sk \<Rightarrow>
          let s' = s\<lparr>sockets := AList.delete k (sockets s)\<rparr>
          in if sock_role sk = Some ''student''
                \<and> sock_studentId sk \<noteq> None \<and> sock_studentId sk \<noteq> Some []
             then s'\<lparr>activeParticipants :=
                       AList.delete (the (sock_studentId sk)) (activeParticipants s')\<rparr>
             else s')"

definition kickParticipant :: "string \<Rightarrow> string \<Rightarrow> state \<Rightarrow> state" where
  \<comment> \<open>the \<open>reason\<close> of the request only goes into the events\<close>
  "kickParticipant k sid s =
     (case map_of (sockets s) k of
        None \<Rightarrow> s
      | Some sk \<Rightarrow>
          if sock_role sk \<noteq> Some ''teacher'' then s
          else
            let s1 = s\<lparr>kickedOutStudents := insert sid (kickedOutStudents s),
                       activeParticipants := AList.delete sid (activeParticipants s)\<rparr>
            in (case find (\<lambda>(k', sk'). sock_studentId sk' = Some sid) (sockets s1) of
                  None \<Rightarrow> s1
                | Some (k', sk') \<Rightarrow> disconnect k' s1))"

subsection \<open>Runs of the engine\<close>

datatype op =
    CreatePoll int string create_request
  | StartPoll int string string
  | SubmitResponse int string string string string
  | Join int string string
  | Tick int string
  | Connect string
  | JoinTeacher string string string
  | JoinParticipant int string string string
  | SendMessage int string string message_data
  | KickParticipant string string
  | Disconnect string

fun step :: "op \<Rightarrow> state \<Rightarrow> state" where
  "step (CreatePoll now uuid rq) s = snd (createPoll now uuid rq s)"
| "step (StartPoll now pollId tid) s = snd (startPoll now pollId tid s)"
| "step (SubmitResponse now pollId sid sname opt) s = snd (submitResponse now pollId sid sname opt s)"
| "step (Join now sid sname) s = snd (join now sid sname s)"
| "step (Tick now pollId) s = tick now pollId s"
| "step (Connect k) s = connect k s"
| "step (JoinTeacher k tid tname) s = joinTeacher k tid tname s"
| "step (JoinParticipant now k sid sname) s = snd (joinParticipant now k sid sname s)"
| "step (SendMessage now uuid k d) s = sendMessage now uuid k d s"
| "step (KickParticipant k sid) s = kickParticipant k sid s"
| "step (Disconnect k) s = disconnect k s"

definition run :: "op list \<Rightarrow> state \<Rightarrow> state" where
  \<comment> \<open>the handlers of a list of events, one after the other\<close>
  "run ops s = foldl (\<lambda>s' ev. step ev s') s ops"

text \<open>
  The lifecycle states of the specification, read off a poll object: a poll is Active while
  \<open>isActive\<close> holds, Ended when it is not active and carries the summary that only
  \<open>endPoll\<close> writes, and Draft otherwise.
\<close>

datatype poll_state = Draft | Active | Ended

definition state_of :: "poll \<Rightarrow> poll_state" where
  "state_of p = (if isActive p then Active else if poll_summary p = None then Draft else Ended)"

definition active_polls :: "state \<Rightarrow> string list" where
  \<comment> \<open>the ids of the polls in the store whose \<open>isActive\<close> flag is set\<close>
  "active_polls s = map fst (filter (\<lambda>(k, p). isActive p) (polls s))"

definition tally_sum :: "poll \<Rightarrow> nat" where
  \<comment> \<open>the sum of the counts of the tally entries\<close>
  "tally_sum p = sum_list (map (\<lambda>(opt, t). count t) (results p))"

definition respondents :: "poll \<Rightarrow> nat" where
  \<comment> \<open>the number of distinct participant ids among the keys of \<open>responses\<close>\<close>
  "respondents p = length (remdups (map fst (responses p)))"

subsection \<open>Concrete requests and runs\<close>

definition teacher_request :: "string list \<Rightarrow> int option \<Rightarrow> int option \<Rightarrow> create_request" where
  \<comment> \<open>a creation request of teacher \<open>t1\<close> with the given options, duration and answer index\<close>
  "teacher_request opts d ca =
     \<lparr>rq_question = ''Q?'', rq_options = opts, rq_duration = d, rq_teacherId = ''t1'',
      rq_teacherName = ''Teacher'', rq_correctAnswer = ca\<rparr>"

definition known_current :: "state \<Rightarrow> bool" where
  \<comment> \<open>\<open>currentPoll\<close>, when set, is a poll of the store\<close>
  "known_current s =
     (case currentPoll s of None \<Rightarrow> True | Some c \<Rightarrow> map_of (polls s) c \<noteq> None)"

definition total_count :: "poll \<Rightarrow> nat" where
  \<comment> \<open>the counts of the options, summed in declaration order\<close>
  "total_count p = sum_list (map (tally_count p) (options p))"

definition correct_count :: "poll \<Rightarrow> nat" where
  \<comment> \<open>the count of the option at the answer index, if the index is one of the options\<close>
  "correct_count p =
     (case nth_opt (options p) (correctAnswer p) of None \<Rightarrow> 0 | Some opt \<Rightarrow> tally_count p opt)"

definition scenario_A :: "op list" where
  \<comment> \<open>a poll with options \<open>A\<close>, \<open>B\<close>, answer index 0 and duration 10 is created and
      started, two participants answer \<open>A\<close> and \<open>B\<close>, and the timer fires ten times\<close>
  "scenario_A =
     [CreatePoll 0 ''p1'' (teacher_request [''A'', ''B''] (Some 10) (Some 0)),
      StartPoll 1000 ''p1'' ''t1'',
      SubmitResponse 2000 ''p1'' ''s1'' ''Ann'' ''A'',
      SubmitResponse 3000 ''p1'' ''s2'' ''Bob'' ''B'',
      Tick 4000 ''p1'', Tick 5000 ''p1'', Tick 6000 ''p1'', Tick 7000 ''p1'', Tick 8000 ''p1'',
      Tick 9000 ''p1'', Tick 10000 ''p1'', Tick 11000 ''p1'', Tick 12000 ''p1'',
      Tick 13000 ''p1'']"

definition expiring_poll_A :: poll where
  \<comment> \<open>the poll of \<open>scenario_A\<close> as the last firing of the timer hands it to \<open>endPoll\<close>\<close>
  "expiring_poll_A =
     \<lparr>poll_id = ''p1'', question = ''Q?'', options = [''A'', ''B''], duration = 10,
      correctAnswer = 0, isActive = True,
      responses =
        [(''s1'', \<lparr>studentId = ''s1'', studentName = ''Ann'', selectedOption = ''A'',
                   timestamp = 2000, isCorrect = True\<rparr>),
         (''s2'', \<lparr>studentId = ''s2'', studentName = ''Bob'', selectedOption = ''B'',
                   timestamp = 3000, isCorrect = False\<rparr>)],
      results =
        [(''A'', \<lparr>count = 1, participants = [(''s1'', ''Ann'')]\<rparr>),
         (''B'', \<lparr>count = 1, participants = [(''s2'', ''Bob'')]\<rparr>)],
      startTime = Some 1000, endTime = Some 11000, timeLeft = 0,
      teacherId = ''t1'', teacherName = ''Teacher'', createdAt = 0,
      finalResults = None, poll_summary = None\<rparr>"

definition has_responded :: "state \<Rightarrow> string \<Rightarrow> string \<Rightarrow> bool" where
  \<comment> \<open>the poll is stored and active and holds a response of the participant\<close>
  "has_responded s pollId sid =
     (case map_of (polls s) pollId of
        None \<Rightarrow> False
      | Some p \<Rightarrow> isActive p \<and> map_of (responses p) sid \<noteq> None)"

definition scenario_B :: "op list" where
  \<comment> \<open>a poll is created and started, and participant \<open>s1\<close> answers \<open>A\<close>\<close>
  "scenario_B =
     [CreatePoll 0 ''p1'' (teacher_request [''A'', ''B''] (Some 10) (Some 0)),
      StartPoll 1000 ''p1'' ''t1'',
      SubmitResponse 2000 ''p1'' ''s1'' ''Ann'' ''A'']"

definition teacher_online :: "op list" where
  \<comment> \<open>after \<open>scenario_B\<close>, the teacher connects on socket \<open>k1\<close> and participant \<open>s1\<close> on
      socket \<open>k2\<close>\<close>
  "teacher_online =
     scenario_B @
     [Connect ''k1'', JoinTeacher ''k1'' ''t1'' ''Teacher'',
      Connect ''k2'', JoinParticipant 2500 ''k2'' ''s1'' ''Ann'']"

definition scenario_C :: "op list" where
  \<comment> \<open>the teacher then kicks \<open>s1\<close>\<close>
  "scenario_C = teacher_online @ [KickParticipant ''k1'' ''s1'']"

definition ticks :: "(int \<times> string) list \<Rightarrow> op list" where
  \<comment> \<open>firings of timers, each with its time and the poll of the timer\<close>
  "ticks ts = map (\<lambda>(now, pollId). Tick now pollId) ts"

definition ten_seconds :: "(int \<times> string) list" where
  \<comment> \<open>ten firings of the timer of poll \<open>p1\<close>\<close>
  "ten_seconds =
     [(4000, ''p1''), (5000, ''p1''), (6000, ''p1''), (7000, ''p1''), (8000, ''p1''),
      (9000, ''p1''), (10000, ''p1''), (11000, ''p1''), (12000, ''p1''), (13000, ''p1'')]"

definition tally_ok :: "poll \<Rightarrow> bool" where
  \<comment> \<open>one response per participant id, and as many counted votes as responses\<close>
  "tally_ok p \<longleftrightarrow> distinct (map fst (responses p)) \<and> tally_sum p = length (responses p)"

definition store_ok :: "state \<Rightarrow> bool" where
  \<comment> \<open>every stored poll and every snapshot of the history is \<open>tally_ok\<close>\<close>
  "store_ok s \<longleftrightarrow>
     list_all (\<lambda>(k, p). tally_ok p) (polls s) \<and> list_all (\<lambda>h. tally_ok (h_poll h)) (pollHistory s)"

fun creates :: "op \<Rightarrow> string \<Rightarrow> bool" where
  \<comment> \<open>the event is a creation for which \<open>uuidv4()\<close> returned this id\<close>
  "creates (CreatePoll now uuid rq) pollId = (uuid = pollId)"
| "creates ev pollId = False"

fun starts :: "op \<Rightarrow> string \<Rightarrow> string \<Rightarrow> bool" where
  \<comment> \<open>the event is a start request for this poll sent with this teacher id\<close>
  "starts (StartPoll now pollId' tid') pollId tid = (pollId' = pollId \<and> tid' = tid)"
| "starts ev pollId tid = False"

fun fires :: "op \<Rightarrow> string \<Rightarrow> bool" where
  \<comment> \<open>the event is a firing of the timer of this poll\<close>
  "fires (Tick now pollId') pollId = (pollId' = pollId)"
| "fires ev pollId = False"

definition summary_ok :: "poll \<Rightarrow> bool" where
  \<comment> \<open>with distinct option texts the tally has one entry per option, in their order (or
      none at all before the first start); once a poll has ended, its summary holds the
      total that \<open>endPoll\<close> computed from this very tally\<close>
  "summary_ok p \<longleftrightarrow>
     (distinct (options p) \<longrightarrow>
        map fst (results p) = options p \<or> (\<not> isActive p \<and> results p = [])) \<and>
     (\<not> isActive p \<longrightarrow> (\<forall>sm. poll_summary p = Some sm \<longrightarrow> totalResponses sm = total_count p))"

definition voters :: "string \<Rightarrow> string \<Rightarrow> nat \<Rightarrow> op list" where
  \<comment> \<open>\<open>n\<close> participants with ids of their own answer the poll with the same option\<close>
  "voters pollId opt n =
     map (\<lambda>i. SubmitResponse 2000 pollId (opt @ replicate i (CHR ''+'')) ''N'' opt) [0..<n]"

definition forty_voters :: "op list" where
  \<comment> \<open>of forty participants, 23 answer \<open>A\<close> and 17 answer \<open>B\<close>; then the poll expires\<close>
  "forty_voters =
     [CreatePoll 0 ''p1'' (teacher_request [''A'', ''B''] (Some 10) (Some 0)),
      StartPoll 1000 ''p1'' ''t1''] @
     voters ''p1'' ''A'' 23 @ voters ''p1'' ''B'' 17 @ ticks ten_seconds"

definition repeated_option :: "op list" where
  \<comment> \<open>the two options sent differ by a trailing blank only; the poll gets one answer and
      expires\<close>
  "repeated_option =
     [CreatePoll 0 ''p1'' (teacher_request [''Yes'', ''Yes ''] (Some 10) (Some 0)),
      StartPoll 1000 ''p1'' ''t1'',
      SubmitResponse 2000 ''p1'' ''s1'' ''Ann'' ''Yes''] @ ticks ten_seconds"

definition summaries_ok :: "state \<Rightarrow> bool" where
  \<comment> \<open>every stored poll and every snapshot of the history is \<open>summary_ok\<close>\<close>
  "summaries_ok s \<longleftrightarrow>
     list_all (\<lambda>(k, p). summary_ok p) (polls s) \<and>
     list_all (\<lambda>h. summary_ok (h_poll h)) (pollHistory s)"

definition fresh_tally :: "poll \<Rightarrow> bool" where
  \<comment> \<open>no response is recorded, and the tally holds exactly one entry per option text, with
      count zero and no respondent\<close>
  "fresh_tally p \<longleftrightarrow>
     responses p = [] \<and> set (map fst (results p)) = set (options p) \<and>
     distinct (map fst (results p)) \<and>
     list_all (\<lambda>(opt, t). count t = 0 \<and> participants t = []) (results p)"

section \<open>Properties\<close>

subsection \<open>Association lists and runs\<close>

lemma map_of_update_if:
  "map_of (AList.update k v al) k' = (if k' = k then Some v else map_of al k')"
  by (simp add: update_conv')

lemma run_snoc: "run (evs @ [ev]) s = step ev (run evs s)"
  by (simp add: run_def)

lemma run_Nil: "run [] s = s"
  by (simp add: run_def)

lemma run_Cons: "run (ev # evs) s = run evs (step ev s)"
  by (simp add: run_def)

lemma polls_kickParticipant: "polls (kickParticipant k sid s) = polls s"
  by (simp add: kickParticipant_def disconnect_def Let_def split: option.splits prod.splits)

lemma currentPoll_kickParticipant: "currentPoll (kickParticipant k sid s) = currentPoll s"
  by (simp add: kickParticipant_def disconnect_def Let_def split: option.splits prod.splits)

lemma timers_kickParticipant: "timers (kickParticipant k sid s) = timers s"
  by (simp add: kickParticipant_def disconnect_def Let_def split: option.splits prod.splits)

subsection \<open>The current poll is a poll of the store\<close>

lemma known_current_step:
  assumes "known_current s"
  shows "known_current (step ev s)"
proof (cases ev)
  case (CreatePoll now uuid rq)
  with assms show ?thesis
    by (auto simp: known_current_def createPoll_def Let_def map_of_update_if split: option.splits)
next
  case (StartPoll now pid tid)
  with assms show ?thesis
    by (auto simp: known_current_def startPoll_def Let_def map_of_update_if split: option.splits)
next
  case (SubmitResponse now pid sid sname opt)
  with assms show ?thesis
    by (auto simp: known_current_def submitResponse_def Let_def map_of_update_if split: option.splits)
next
  case (Tick now pid)
  with assms show ?thesis
    by (auto simp: known_current_def tick_def endPoll_def Let_def map_of_update_if split: option.splits)
next
  case (KickParticipant k sid)
  with assms show ?thesis
    by (auto simp: known_current_def polls_kickParticipant currentPoll_kickParticipant
        split: option.splits)
next
  case (Join now sid sname)
  with assms show ?thesis
    by (auto simp: known_current_def join_def split: option.splits)
next
  case (Connect k)
  with assms show ?thesis
    by (auto simp: known_current_def connect_def split: option.splits)
next
  case (JoinTeacher k tid tname)
  with assms show ?thesis
    by (auto simp: known_current_def joinTeacher_def split: option.splits)
next
  case (JoinParticipant now k sid sname)
  with assms show ?thesis
    by (auto simp: known_current_def joinParticipant_def split: option.splits)
next
  case (SendMessage now uuid k d)
  with assms show ?thesis
    by (auto simp: known_current_def sendMessage_def Let_def split: option.splits)
next
  case (Disconnect k)
  with assms show ?thesis
    by (auto simp: known_current_def disconnect_def Let_def split: option.splits)
qed

lemma known_current_run: "known_current (run evs init)"
proof (induction evs rule: rev_induct)
  case Nil
  show ?case by (simp add: run_def known_current_def init_def)
next
  case (snoc ev evs)
  then show ?case by (simp add: run_snoc known_current_step)
qed

subsection \<open>The reply of the current-poll query\<close>

text \<open>
  C9, as amended. In every state the engine can reach, \<open>GET /api/poll/current\<close> answers
  \<open>{poll, participants, chatMessages}\<close> with the view of the current poll, the roster and
  the chat log when a current poll exists; when none exists it answers
  \<open>{poll: null, message: 'No active poll'}\<close>, a reply that carries neither a
  \<open>participants\<close> nor a \<open>chatMessages\<close> key.
\<close>

theorem getCurrentPoll_shape:
  "(currentPoll (run evs init) = None \<longrightarrow>
      getCurrentPoll (run evs init) =
        \<lparr>cr_poll = None, cr_message = Some ''No active poll'',
         cr_participants = None, cr_chatMessages = None\<rparr>) \<and>
   (\<forall>c. currentPoll (run evs init) = Some c \<longrightarrow>
      (\<exists>p. map_of (polls (run evs init)) c = Some p \<and>
           getCurrentPoll (run evs init) =
             \<lparr>cr_poll = Some (createPollResponse p), cr_message = None,
              cr_participants = Some (map snd (activeParticipants (run evs init))),
              cr_chatMessages = Some (chatMessages (run evs init))\<rparr>))"
  using known_current_run [of evs]
  by (auto simp: getCurrentPoll_def known_current_def)

text \<open>Both branches at concrete runs: the empty run, and the run that creates one poll.\<close>

theorem getCurrentPoll_shape_witness:
  "currentPoll (run [] init) = None \<and>
   cr_participants (getCurrentPoll (run [] init)) = None \<and>
   currentPoll (run [CreatePoll 0 ''p1'' (teacher_request [''A'', ''B''] None None)] init)
     = Some ''p1'' \<and>
   cr_participants
     (getCurrentPoll (run [CreatePoll 0 ''p1'' (teacher_request [''A'', ''B''] None None)] init))
     = Some []"
proof -
  have a: "currentPoll (run [] init) = None"
    by code_simp
  have b: "currentPoll (run [CreatePoll 0 ''p1'' (teacher_request [''A'', ''B''] None None)] init)
             = Some ''p1''"
    by code_simp
  have c: "activeParticipants
             (run [CreatePoll 0 ''p1'' (teacher_request [''A'', ''B''] None None)] init) = []"
    by code_simp
  from getCurrentPoll_shape [of "[]"] a
  have "cr_participants (getCurrentPoll (run [] init)) = None"
    by simp
  moreover
  from getCurrentPoll_shape [of "[CreatePoll 0 ''p1'' (teacher_request [''A'', ''B''] None None)]"] b c
  have "cr_participants
     (getCurrentPoll (run [CreatePoll 0 ''p1'' (teacher_request [''A'', ''B''] None None)] init))
     = Some []"
    by auto
  ultimately show ?thesis using a b by simp
qed

text \<open>
  C9 as stated fails in the initial state: no poll has been created, and the reply has
  \<open>poll: null\<close> without participants and without chat messages.
\<close>

theorem getCurrentPoll_counterexample:
  "cr_poll (getCurrentPoll init) = None \<and>
   cr_participants (getCurrentPoll init) = None \<and>
   cr_chatMessages (getCurrentPoll init) = None"
  by (simp add: getCurrentPoll_def init_def)

subsection \<open>Two polls active at once\<close>

text \<open>
  C1 asks for at most one active poll in every reachable state. \<open>createPoll\<close> refuses a new
  poll while the current one is active, but \<open>startPoll\<close> starts any stored poll that is not
  active itself and never looks at the others: two drafts created one after the other and
  then started are both active.
\<close>

theorem two_polls_active:
  "active_polls
     (run [CreatePoll 0 ''p1'' (teacher_request [''A'', ''B''] None None),
           CreatePoll 1 ''p2'' (teacher_request [''C'', ''D''] None None),
           StartPoll 2 ''p1'' ''t1'',
           StartPoll 3 ''p2'' ''t1''] init) = [''p1'', ''p2'']"
  by code_simp

subsection \<open>Creation: validation before normalisation\<close>

text \<open>
  C3 asks that a request with fewer than two non-empty options after trimming be rejected.
  The handler counts the options of the request as sent and drops the blank ones
  afterwards: the request with options \<open>A\<close> and a blank text is accepted, and the poll it
  creates has the single option \<open>A\<close>.
\<close>

theorem createPoll_single_option:
  "map_sum id options (fst (createPoll 0 ''p1'' (teacher_request [''A'', ''  ''] None None) init))
     = Inr [''A'']"
  by code_simp

text \<open>What the handler does check: the question, the number of options sent, the creator.\<close>

lemma createPoll_validation:
  "fst (createPoll now uuid rq s) = Inl ValidationError \<longleftrightarrow>
     rq_question rq = [] \<or> length (rq_options rq) < 2 \<or>
     rq_teacherId rq = [] \<or> rq_teacherName rq = []"
  by (simp add: createPoll_def Let_def)

text \<open>
  C6 asks that the answer index of the created poll lie within the created poll's options.
  The handler clamps it against the number of options of the request as sent: with the
  options \<open>A\<close>, blank, \<open>B\<close> and the index 2, the created poll has the two options \<open>A\<close> and
  \<open>B\<close> and keeps the index 2.
\<close>

theorem createPoll_index_out_of_range:
  "map_sum id (\<lambda>p. (options p, correctAnswer p))
     (fst (createPoll 0 ''p1'' (teacher_request [''A'', ''  '', ''B''] None (Some 2)) init))
     = Inr ([''A'', ''B''], 2)"
  by code_simp

text \<open>
  What the handler does guarantee: the duration is the requested one (60 when absent)
  clamped into 10 to 300, and the answer index is the requested one (0 when absent)
  clamped into the positions of the options as sent.
\<close>

lemma createPoll_clamps:
  assumes "fst (createPoll now uuid rq s) = Inr p"
  shows "duration p = min (max (case rq_duration rq of None \<Rightarrow> 60 | Some d \<Rightarrow> d) 10) 300 \<and>
         10 \<le> duration p \<and> duration p \<le> 300 \<and>
         correctAnswer p
           = max 0 (min (case rq_correctAnswer rq of None \<Rightarrow> 0 | Some c \<Rightarrow> c)
                        (int (length (rq_options rq)) - 1)) \<and>
         0 \<le> correctAnswer p \<and> correctAnswer p < int (length (rq_options rq))"
proof -
  from assms have len: "2 \<le> length (rq_options rq)"
    and p: "p = createPollResponse (new_poll now uuid rq)"
    by (auto simp: createPoll_def Let_def split: if_splits)
  from p have "duration p
                 = min (max (case rq_duration rq of None \<Rightarrow> 60 | Some d \<Rightarrow> d) 10) 300"
    and "correctAnswer p
           = max 0 (min (case rq_correctAnswer rq of None \<Rightarrow> 0 | Some c \<Rightarrow> c)
                        (int (length (rq_options rq)) - 1))"
    by (simp_all add: createPollResponse_def new_poll_def Let_def)
  with len show ?thesis
    by auto
qed

subsection \<open>Binary64 rounding against the exact rule\<close>

text \<open>
  The quotient and the product each carry a relative error of at most \<open>2 ^ -53\<close>, so the
  number handed to \<open>Math.round\<close> lies within \<open>2 ^ -45\<close> of the exact hundredfold ratio.
  For a total below \<open>2 ^ 44\<close> that is less than the distance of any ratio that is not a tie
  from the next rounding boundary: off a tie the code computes the exactly rounded
  percentage, and on a tie it computes that percentage or the integer below it.
\<close>

lemma bit_length_bounds:
  "0 < n \<Longrightarrow> 0 < bit_length n \<and> 2 ^ nat (bit_length n - 1) \<le> n \<and> n < 2 ^ nat (bit_length n)"
proof (induction n rule: bit_length.induct)
  case (1 n)
  show ?case
  proof (cases "n = 1")
    case True
    then show ?thesis
      by (simp add: bit_length.simps [of 1] bit_length.simps [of 0])
  next
    case False
    with "1.prems" have pos: "0 < n div 2" by simp
    from "1.IH" [OF _ pos] "1.prems"
    have ih: "0 < bit_length (n div 2)" "2 ^ nat (bit_length (n div 2) - 1) \<le> n div 2"
      "n div 2 < 2 ^ nat (bit_length (n div 2))"
      by simp_all
    have bl: "bit_length n = 1 + bit_length (n div 2)"
      using "1.prems" by (simp add: bit_length.simps [of n])
    have a: "nat (bit_length n - 1) = Suc (nat (bit_length (n div 2) - 1))"
      using ih(1) bl by simp
    have b: "nat (bit_length n) = Suc (nat (bit_length (n div 2)))"
      using ih(1) bl by simp
    from ih show ?thesis
      unfolding a b using bl by (simp; presburger?)
  qed
qed

lemma round_half_even_error:
  assumes "0 < b"
  shows "\<bar>real_of_int (round_half_even a b) - real_of_int a / real_of_int b\<bar> \<le> 1 / 2"
proof -
  define q r where "q = a div b" and "r = a mod b"
  have r: "0 \<le> r" "r < b"
    using assms by (simp_all add: r_def)
  have "a = q * b + r"
    by (simp add: q_def r_def)
  then have "real_of_int a = real_of_int q * real_of_int b + real_of_int r"
    by (metis of_int_add of_int_mult)
  then have frac: "real_of_int a / real_of_int b = real_of_int q + real_of_int r / real_of_int b"
    using assms by (simp add: field_simps)
  have rb: "0 \<le> real_of_int r / real_of_int b" "real_of_int r / real_of_int b < 1"
    using r assms by simp_all
  have rhe: "round_half_even a b
               = (if 2 * r < b then q else if b < 2 * r then q + 1 else if even q then q else q + 1)"
    by (simp add: round_half_even_def Let_def q_def r_def)
  consider "2 * r < b" | "b < 2 * r" | "2 * r = b"
    by linarith
  then show ?thesis
  proof cases
    case 1
    then have "real_of_int (2 * r) < real_of_int b"
      by (simp only: of_int_less_iff)
    then have "real_of_int r / real_of_int b < 1 / 2"
      using assms by (simp add: field_simps)
    moreover from 1 have "round_half_even a b = q"
      by (simp add: rhe)
    ultimately show ?thesis
      using rb by (simp add: frac)
  next
    case 2
    then have "real_of_int b < real_of_int (2 * r)"
      by (simp only: of_int_less_iff)
    then have "1 / 2 < real_of_int r / real_of_int b"
      using assms by (simp add: field_simps)
    moreover from 2 have "round_half_even a b = q + 1"
      by (simp add: rhe)
    ultimately show ?thesis
      using rb by (simp add: frac)
  next
    case 3
    then have "real_of_int (2 * r) = real_of_int b"
      by (simp only:)
    then have half: "real_of_int r / real_of_int b = 1 / 2"
      using assms by (simp add: field_simps)
    from 3 have "round_half_even a b = q \<or> round_half_even a b = q + 1"
      by (simp add: rhe)
    then show ?thesis
      by (auto simp: frac half)
  qed
qed

lemma pw_nat: "0 \<le> x \<Longrightarrow> real_of_int (2 ^ nat x) = 2 powr real_of_int x"
proof -
  assume "0 \<le> x"
  then have "real_of_int x = real (nat x)" by simp
  then have "2 powr real_of_int x = 2 ^ nat x"
    by (simp only: powr_realpow [of 2, simplified])
  then show ?thesis by simp
qed

lemma pw_neg: "x \<le> 0 \<Longrightarrow> real_of_int (2 ^ nat (- x)) = 1 / 2 powr real_of_int x"
proof -
  assume "x \<le> 0"
  then have "real_of_int (2 ^ nat (- x)) = 2 powr real_of_int (- x)"
    by (intro pw_nat) simp
  also have "\<dots> = 1 / 2 powr real_of_int x"
    by (simp add: powr_minus field_simps)
  finally show ?thesis .
qed

lemma to_double_low:
  assumes "0 < a" and "0 < b"
  defines "k \<equiv> bit_length a - bit_length b"
  defines "l \<equiv> (if (if 0 \<le> k then b * 2 ^ nat k \<le> a else b \<le> a * 2 ^ nat (- k)) then k else k - 1)"
  shows "2 powr real_of_int l \<le> real_of_int a / real_of_int b"
proof (cases "if 0 \<le> k then b * 2 ^ nat k \<le> a else b \<le> a * 2 ^ nat (- k)")
  case True
  then have l: "l = k" by (simp add: l_def)
  show ?thesis
  proof (cases "0 \<le> k")
    case k: True
    with True have "b * 2 ^ nat k \<le> a" by simp
    then have "real_of_int (b * 2 ^ nat k) \<le> real_of_int a"
      by (simp only: of_int_le_iff)
    then have "real_of_int b * 2 powr real_of_int k \<le> real_of_int a"
      by (simp only: of_int_mult pw_nat [OF k])
    then show ?thesis
      using assms(2) by (simp add: l field_simps)
  next
    case k: False
    with True have "b \<le> a * 2 ^ nat (- k)" by simp
    then have "real_of_int b \<le> real_of_int (a * 2 ^ nat (- k))"
      by (simp only: of_int_le_iff)
    moreover from k have "k \<le> 0" by simp
    ultimately have "real_of_int b \<le> real_of_int a * (1 / 2 powr real_of_int k)"
      by (simp only: of_int_mult pw_neg)
    then show ?thesis
      using assms(2) by (simp add: l field_simps)
  qed
next
  case False
  then have l: "l = k - 1" by (simp add: l_def)
  from bit_length_bounds [OF assms(1)] have a: "0 < bit_length a" "2 ^ nat (bit_length a - 1) \<le> a"
    by simp_all
  from bit_length_bounds [OF assms(2)] have b: "0 < bit_length b" "b < 2 ^ nat (bit_length b)"
    by simp_all
  from a have "real_of_int (2 ^ nat (bit_length a - 1)) \<le> real_of_int a"
    by (simp only: of_int_le_iff)
  moreover from a(1) have "0 \<le> bit_length a - 1" by simp
  ultimately have ra: "2 powr real_of_int (bit_length a - 1) \<le> real_of_int a"
    by (simp only: pw_nat)
  from b have "real_of_int b < real_of_int (2 ^ nat (bit_length b))"
    by (simp only: of_int_less_iff)
  moreover from b(1) have "0 \<le> bit_length b" by simp
  ultimately have rb: "real_of_int b < 2 powr real_of_int (bit_length b)"
    by (simp only: pw_nat)
  have "real_of_int l = real_of_int (bit_length a - 1) - real_of_int (bit_length b)"
    by (simp add: l k_def)
  then have "2 powr real_of_int l = 2 powr real_of_int (bit_length a - 1) / 2 powr real_of_int (bit_length b)"
    by (simp only: powr_diff)
  also have "\<dots> \<le> real_of_int a / 2 powr real_of_int (bit_length b)"
    using ra by (simp add: divide_right_mono)
  also have "\<dots> \<le> real_of_int a / real_of_int b"
    using rb assms by (simp add: frac_le)
  finally show ?thesis .
qed

lemma to_double_error:
  assumes "0 \<le> a" and "0 < b"
  shows "\<bar>val (to_double a b) - real_of_int a / real_of_int b\<bar>
           \<le> (real_of_int a / real_of_int b) / 2 ^ 53"
proof (cases "a = 0")
  case True
  then show ?thesis
    by (simp add: to_double_def val_def)
next
  case False
  with assms have pos: "0 < a" by simp
  define k where "k = bit_length a - bit_length b"
  define l where "l = (if (if 0 \<le> k then b * 2 ^ nat k \<le> a else b \<le> a * 2 ^ nat (- k)) then k else k - 1)"
  define e where "e = l - 52"
  define m where "m = (if 0 \<le> e then round_half_even a (b * 2 ^ nat e)
                        else round_half_even (a * 2 ^ nat (- e)) b)"
  define P where "P = 2 powr real_of_int e"
  define x where "x = real_of_int a / real_of_int b"
  have td: "to_double a b = (m, e)"
    using False by (simp add: to_double_def Let_def m_def e_def l_def k_def)
  have P: "0 < P" by (simp add: P_def)
  have low: "2 powr real_of_int l \<le> x"
    unfolding x_def l_def k_def by (rule to_double_low [OF pos assms(2)])
  have m: "\<bar>real_of_int m - x / P\<bar> \<le> 1 / 2"
  proof (cases "0 \<le> e")
    case True
    have "0 < b * 2 ^ nat e" using assms(2) by simp
    from round_half_even_error [OF this, of a]
    have "\<bar>real_of_int m - real_of_int a / real_of_int (b * 2 ^ nat e)\<bar> \<le> 1 / 2"
      using True by (simp only: m_def if_True)
    moreover have den: "real_of_int (b * 2 ^ nat e) = real_of_int b * P"
      by (simp only: of_int_mult pw_nat [OF True] P_def)
    have "real_of_int a / real_of_int (b * 2 ^ nat e) = x / P"
      unfolding den x_def by (simp only: divide_divide_eq_left)
    ultimately show ?thesis
      by (simp only:)
  next
    case False
    then have neg: "e \<le> 0" by simp
    from round_half_even_error [OF assms(2), of "a * 2 ^ nat (- e)"]
    have "\<bar>real_of_int m - real_of_int (a * 2 ^ nat (- e)) / real_of_int b\<bar> \<le> 1 / 2"
      using False by (simp only: m_def if_False)
    moreover have num: "real_of_int (a * 2 ^ nat (- e)) = real_of_int a * (1 / P)"
      by (simp only: of_int_mult pw_neg [OF neg] P_def)
    have "real_of_int (a * 2 ^ nat (- e)) / real_of_int b = x / P"
      unfolding num x_def by (simp add: field_simps)
    ultimately show ?thesis
      by (simp only:)
  qed
  have "val (to_double a b) - x = P * (real_of_int m - x / P)"
    using P by (simp add: td val_def P_def [symmetric] field_simps)
  then have "\<bar>val (to_double a b) - x\<bar> = P * \<bar>real_of_int m - x / P\<bar>"
    using P by (simp add: abs_mult)
  also have "\<dots> \<le> P * (1 / 2)"
    using m P by (intro mult_left_mono) simp_all
  also have "P * (1 / 2) = 2 powr real_of_int l / 2 ^ 53"
  proof -
    have "real_of_int e = real_of_int l + (- 52)"
      by (simp add: e_def)
    then have "P = 2 powr real_of_int l * 2 powr (- 52)"
      unfolding P_def by (simp only: powr_add)
    moreover have "(2::real) powr (- 52) = 1 / 2 ^ 52"
      by (simp add: powr_minus_divide powr_realpow [of 2 52, simplified])
    ultimately show ?thesis
      by simp
  qed
  also have "\<dots> \<le> x / 2 ^ 53"
    using low by (simp add: divide_right_mono)
  finally show ?thesis
    by (simp add: x_def)
qed

lemma round_half_even_nonneg: "0 \<le> a \<Longrightarrow> 0 < b \<Longrightarrow> 0 \<le> round_half_even a b"
  by (simp add: round_half_even_def Let_def pos_imp_zdiv_nonneg_iff)

lemma to_double_nonneg: "0 \<le> a \<Longrightarrow> 0 < b \<Longrightarrow> 0 \<le> fst (to_double a b)"
  by (simp add: to_double_def Let_def round_half_even_nonneg)

lemma js_times_error:
  assumes "0 \<le> m" and "0 \<le> c"
  shows "\<bar>val (js_times (m, e) c) - real_of_int c * val (m, e)\<bar>
           \<le> real_of_int c * val (m, e) / 2 ^ 53"
proof (cases "0 \<le> e")
  case True
  have eq: "real_of_int c * val (m, e) = real_of_int (c * m * 2 ^ nat e) / real_of_int 1"
    by (simp only: of_int_mult pw_nat [OF True] val_def prod.case of_int_1 div_by_1 mult.assoc)
  have td: "js_times (m, e) c = to_double (c * m * 2 ^ nat e) 1"
    using True by (simp add: js_times_def)
  have "0 \<le> c * m * 2 ^ nat e"
    using assms by simp
  then show ?thesis
    unfolding td eq by (rule to_double_error) simp
next
  case False
  then have neg: "e \<le> 0" by simp
  have p: "real_of_int (2 ^ nat (- e)) = 1 / 2 powr real_of_int e"
    by (rule pw_neg [OF neg])
  have eq: "real_of_int c * val (m, e) = real_of_int (c * m) / real_of_int (2 ^ nat (- e))"
    unfolding p by (simp add: val_def)
  have td: "js_times (m, e) c = to_double (c * m) (2 ^ nat (- e))"
    using False by (simp add: js_times_def)
  have "0 \<le> c * m"
    using assms by simp
  then show ?thesis
    unfolding td eq by (rule to_double_error) simp
qed

lemma Math_round_floor: "Math_round (m, e) = \<lfloor>val (m, e) + 1 / 2\<rfloor>"
proof (cases "0 \<le> e")
  case True
  have "val (m, e) = real_of_int (m * 2 ^ nat e)"
    by (simp only: val_def prod.case of_int_mult pw_nat [OF True])
  then have "\<lfloor>val (m, e) + 1 / 2\<rfloor> = m * 2 ^ nat e"
    by (simp only:) linarith
  with True show ?thesis
    by (simp add: Math_round_def)
next
  case False
  then have neg: "e \<le> 0" by simp
  define n where "n = nat (- e)"
  have n1: "nat (1 - e) = Suc n"
    using False by (simp add: n_def)
  have "real_of_int (2 ^ n) = 1 / 2 powr real_of_int e"
    unfolding n_def by (rule pw_neg [OF neg])
  then have v: "val (m, e) = real_of_int m / real_of_int (2 ^ n)"
    by (simp add: val_def)
  have "real_of_int (2 * m + 2 ^ n) / real_of_int (2 ^ Suc n)
          = real_of_int m / real_of_int (2 ^ n) + 1 / 2"
    by (simp add: field_simps)
  then have "\<lfloor>val (m, e) + 1 / 2\<rfloor> = \<lfloor>real_of_int (2 * m + 2 ^ n) / real_of_int (2 ^ Suc n)\<rfloor>"
    by (simp only: v)
  also have "\<dots> = (2 * m + 2 ^ n) div 2 ^ Suc n"
    by (rule floor_divide_of_int_eq)
  finally show ?thesis
    using False by (simp add: Math_round_def n1 n_def)
qed

lemma double_rounding_bound:
  fixes q r y :: real
  assumes e1: "\<bar>q - r\<bar> \<le> r / 2 ^ 53" and e2: "\<bar>y - 100 * q\<bar> \<le> 100 * q / 2 ^ 53"
    and r: "0 \<le> r" "r \<le> 1"
  shows "\<bar>y - 100 * r\<bar> < 1 / 2 ^ 45"
proof -
  have "r / 2 ^ 53 \<le> 1 / 2 ^ 53"
    using r by (intro divide_right_mono) simp_all
  with e1 have b1: "\<bar>q - r\<bar> \<le> 1 / 2 ^ 53"
    by (rule order_trans)
  then have "q - r \<le> 1 / 2 ^ 53"
    by (rule abs_le_D1)
  with r have q: "q \<le> 1 + 1 / 2 ^ 53"
    by linarith
  have "100 * q / 2 ^ 53 \<le> 100 * (1 + 1 / 2 ^ 53) / 2 ^ 53"
    using q by (intro divide_right_mono mult_left_mono) simp_all
  with e2 have b2: "\<bar>y - 100 * q\<bar> \<le> 100 * (1 + 1 / 2 ^ 53) / 2 ^ 53"
    by (rule order_trans)
  have "y - 100 * r = (y - 100 * q) + 100 * (q - r)"
    by simp
  then have "\<bar>y - 100 * r\<bar> \<le> \<bar>y - 100 * q\<bar> + \<bar>100 * (q - r)\<bar>"
    by (simp only: abs_triangle_ineq)
  also have "\<bar>100 * (q - r)\<bar> = 100 * \<bar>q - r\<bar>"
    by (simp only: abs_mult abs_numeral)
  also have "\<bar>y - 100 * q\<bar> + 100 * \<bar>q - r\<bar>
               \<le> 100 * (1 + 1 / 2 ^ 53) / 2 ^ 53 + 100 * (1 / 2 ^ 53)"
    using b1 b2 by (intro add_mono mult_left_mono) simp_all
  also have "\<dots> < 1 / 2 ^ 45"
    by simp
  finally show ?thesis .
qed

lemma js_percentage_error:
  assumes "0 < t" and "c \<le> t"
  shows "\<bar>val (js_times (js_div (int c) (int t)) 100) - 100 * real c / real t\<bar> < 1 / 2 ^ 45"
proof -
  obtain m e where de: "js_div (int c) (int t) = (m, e)"
    by (cases "js_div (int c) (int t)") auto
  define r where "r = real c / real t"
  define q where "q = val (m, e)"
  define y where "y = val (js_times (m, e) 100)"
  have r: "0 \<le> r" "r \<le> 1"
    using assms by (simp_all add: r_def)
  have m: "0 \<le> m"
    using to_double_nonneg [of "int c" "int t"] assms(1) by (simp add: de [unfolded js_div_def])
  have "\<bar>val (to_double (int c) (int t)) - real_of_int (int c) / real_of_int (int t)\<bar>
          \<le> real_of_int (int c) / real_of_int (int t) / 2 ^ 53"
    by (rule to_double_error) (use assms in simp_all)
  then have e1: "\<bar>q - r\<bar> \<le> r / 2 ^ 53"
    by (simp add: q_def r_def de [unfolded js_div_def])
  have "\<bar>val (js_times (m, e) 100) - real_of_int 100 * val (m, e)\<bar>
          \<le> real_of_int 100 * val (m, e) / 2 ^ 53"
    by (rule js_times_error) (use m in simp_all)
  then have e2: "\<bar>y - 100 * q\<bar> \<le> 100 * q / 2 ^ 53"
    by (simp add: y_def q_def)
  from e1 e2 r have "\<bar>y - 100 * r\<bar> < 1 / 2 ^ 45"
    by (rule double_rounding_bound)
  then show ?thesis
    by (simp add: y_def de r_def)
qed


lemma js_percentage_round:
  assumes "0 < t" and "c \<le> t" and "t < 2 ^ 44"
  shows "round_half_up c t - (if is_tie c t then 1 else 0) \<le> js_percentage c t \<and>
         js_percentage c t \<le> round_half_up c t"
proof -
  obtain m e where me: "js_times (js_div (int c) (int t)) 100 = (m, e)"
    by (cases "js_times (js_div (int c) (int t)) 100") auto
  define y where "y = val (m, e)"
  define x where "x = 100 * real c / real t"
  define N where "N = round_half_up c t"
  define r where "r = (200 * int c + int t) mod (2 * int t)"
  define h where "h = 1 / (2 * real t)"
  define \<rho> where "\<rho> = real_of_int r / (2 * real t)"
  define d where "d = 1 / (2::real) ^ 45"
  have js: "js_percentage c t = \<lfloor>y + 1 / 2\<rfloor>"
    by (simp add: js_percentage_def me Math_round_floor y_def)
  have err: "\<bar>y - x\<bar> < d"
    using js_percentage_error [OF assms(1,2)] by (simp add: me y_def x_def d_def)
  have r: "0 \<le> r" "r < 2 * int t"
    using assms(1) by (simp_all add: r_def)
  have "200 * int c + int t = N * (2 * int t) + r"
    by (simp only: N_def round_half_up_def r_def div_mult_mod_eq)
  then have "real_of_int (200 * int c + int t) = real_of_int (N * (2 * int t) + r)"
    by (simp only:)
  then have "200 * real c + real t = real_of_int N * (2 * real t) + real_of_int r"
    by simp
  then have split: "x + 1 / 2 = real_of_int N + \<rho>"
    using assms(1) by (simp add: x_def \<rho>_def field_simps)
  have "real t < 2 ^ 44"
    using assms(3) by (metis of_nat_less_iff of_nat_numeral of_nat_power)
  then have "2 * real t < 2 ^ 45"
    by simp
  then have step: "d < h"
    using assms(1) by (simp add: d_def h_def field_simps)
  have up: "y + 1 / 2 < real_of_int N + 1"
  proof -
    from r(2) have "r \<le> 2 * int t - 1" by simp
    then have "real_of_int r \<le> real_of_int (2 * int t - 1)"
      by (simp only: of_int_le_iff)
    then have "real_of_int r \<le> 2 * real t - 1"
      by simp
    then have "\<rho> \<le> (2 * real t - 1) / (2 * real t)"
      unfolding \<rho>_def using assms(1) by (intro divide_right_mono) simp_all
    also have "\<dots> = 1 - h"
      using assms(1) by (simp add: h_def field_simps)
    finally have "\<rho> \<le> 1 - h" .
    with err step split show ?thesis
      by linarith
  qed
  then have "y + 1 / 2 < real_of_int (N + 1)"
    by simp
  then have "\<lfloor>y + 1 / 2\<rfloor> < N + 1"
    by (simp only: floor_less_iff)
  then have upper: "js_percentage c t \<le> N"
    by (simp add: js)
  have lower: "N - (if is_tie c t then 1 else 0) \<le> js_percentage c t"
  proof (cases "is_tie c t")
    case True
    then have "r = 0" by (simp add: is_tie_def r_def)
    then have "\<rho> = 0" by (simp add: \<rho>_def)
    moreover have "0 < h" using assms(1) by (simp add: h_def)
    moreover have "d < 1" by (simp add: d_def)
    ultimately have "real_of_int N - 1 \<le> y + 1 / 2"
      using err split by linarith
    then have "real_of_int (N - 1) \<le> y + 1 / 2"
      by simp
    then have "N - 1 \<le> \<lfloor>y + 1 / 2\<rfloor>"
      by (simp only: le_floor_iff)
    with True show ?thesis
      by (simp add: js)
  next
    case False
    then have "1 \<le> r" using r(1) by (simp add: is_tie_def r_def)
    then have "real_of_int 1 \<le> real_of_int r"
      by (simp only: of_int_le_iff)
    then have "1 / (2 * real t) \<le> real_of_int r / (2 * real t)"
      using assms(1) by (intro divide_right_mono) simp_all
    then have "h \<le> \<rho>"
      by (simp only: h_def \<rho>_def)
    with err step split have "real_of_int N \<le> y + 1 / 2"
      by linarith
    then have "N \<le> \<lfloor>y + 1 / 2\<rfloor>"
      by (simp only: le_floor_iff)
    with False show ?thesis
      by (simp add: js)
  qed
  from lower upper show ?thesis
    by (simp add: N_def)
qed

subsection \<open>The aggregation of \<open>endPoll\<close>\<close>

text \<open>
  The first loop leaves, under each option text, the entry written for its last occurrence;
  the running sums are the total of the counts and the count at the answer index.
\<close>

lemma tally_loop_other:
  "opt \<notin> set opts \<Longrightarrow> map_of (fst (tally_loop p opts i acc)) opt = map_of (fst acc) opt"
proof (induction opts arbitrary: i acc)
  case Nil
  show ?case by simp
next
  case (Cons x xs)
  obtain fr t c where acc: "acc = (fr, t, c)" by (cases acc) auto
  from Cons show ?case
    by (simp add: acc Let_def map_of_update_if)
qed

lemma tally_loop_entry:
  "j < length opts \<Longrightarrow> opts ! j \<notin> set (drop (Suc j) opts) \<Longrightarrow>
   map_of (fst (tally_loop p opts i acc)) (opts ! j)
     = Some \<lparr>fr_count = tally_count p (opts ! j), percentage = 0,
             fr_isCorrect = (int (i + j) = correctAnswer p)\<rparr>"
proof (induction opts arbitrary: i j acc)
  case Nil
  then show ?case by simp
next
  case (Cons x xs)
  obtain fr t c where acc: "acc = (fr, t, c)" by (cases acc) auto
  show ?case
  proof (cases j)
    case 0
    with Cons.prems have "x \<notin> set xs" by simp
    then show ?thesis
      using 0 by (simp add: acc Let_def tally_loop_other map_of_update_if)
  next
    case (Suc j')
    with Cons.prems have "j' < length xs" "xs ! j' \<notin> set (drop (Suc j') xs)"
      by simp_all
    from Cons.IH [OF this] show ?thesis
      using Suc by (simp add: acc Let_def ac_simps)
  qed
qed

lemma tally_loop_total:
  "fst (snd (tally_loop p opts i (fr, t, c))) = t + sum_list (map (tally_count p) opts)"
  by (induction opts arbitrary: i fr t c) (simp_all add: Let_def)

lemma nth_opt_Cons:
  "nth_opt (x # xs) k = (if k = 0 then Some x else nth_opt xs (k - 1))"
proof -
  have "0 < k \<Longrightarrow> nat k - Suc 0 = nat (k - 1)"
    by arith
  then show ?thesis
    by (auto simp: nth_opt_def nth_Cons')
qed

lemma tally_loop_correct:
  "snd (snd (tally_loop p opts i (fr, t, c)))
     = c + (case nth_opt opts (correctAnswer p - int i) of None \<Rightarrow> 0 | Some opt \<Rightarrow> tally_count p opt)"
proof (induction opts arbitrary: i fr t c)
  case Nil
  show ?case by (simp add: nth_opt_def)
next
  case (Cons x xs)
  have shift: "correctAnswer p - int i - 1 = correctAnswer p - int (Suc i)"
    by simp
  have none: "int i = correctAnswer p \<Longrightarrow> nth_opt xs (correctAnswer p - int (Suc i)) = None"
    by (simp add: nth_opt_def)
  show ?case
    by (simp add: Let_def Cons.IH nth_opt_Cons shift none del: of_nat_Suc)
qed

lemma percentage_loop_map_of:
  "map_of (percentage_loop t opts fr) opt
     = (if opt \<in> set opts
        then map_option (\<lambda>r. r\<lparr>percentage := js_percentage (fr_count r) t\<rparr>) (map_of fr opt)
        else map_of fr opt)"
proof (induction opts arbitrary: fr)
  case Nil
  show ?case by simp
next
  case (Cons x xs)
  show ?case
    by (cases "map_of fr x") (auto simp: Cons.IH map_of_update_if)
qed


lemma end_poll_unfold:
  "end_poll now p =
     (let fr0 = fst (tally_loop p (options p) 0 ([], 0, 0));
          fr = (if 0 < total_count p then percentage_loop (total_count p) (options p) fr0 else fr0);
          cp = (if 0 < total_count p then js_percentage (correct_count p) (total_count p) else 0)
      in p\<lparr>isActive := False, endTime := Some now, timeLeft := 0, finalResults := Some fr,
           poll_summary :=
             Some \<lparr>totalResponses = total_count p,
                   correctResponses = correct_count p,
                   incorrectResponses = total_count p - correct_count p,
                   correctPercentage = cp,
                   incorrectPercentage = 100 - cp,
                   sm_correctAnswer = nth_opt (options p) (correctAnswer p)\<rparr>\<rparr>)"
proof -
  obtain fr0 tot cor where tl: "tally_loop p (options p) 0 ([], 0, 0) = (fr0, tot, cor)"
    by (cases "tally_loop p (options p) 0 ([], 0, 0)") auto
  have "tot = total_count p"
    using tally_loop_total [of p "options p" 0 "[]" 0 0] by (simp add: tl total_count_def)
  moreover have "cor = correct_count p"
    using tally_loop_correct [of p "options p" 0 "[]" 0 0] by (simp add: tl correct_count_def)
  ultimately show ?thesis
    by (simp add: end_poll_def tl Let_def)
qed

lemma js_percentage_half: "js_percentage (Suc 0) (Suc (Suc 0)) = 50"
  by code_simp

text \<open>
  The percentage is the binary64 result of the source expression, not the exact ratio
  rounded: 29 of 200 is 14.5 exactly, but \<open>(29 / 200) * 100\<close> is
  14.499999999999998 in binary64 and rounds to 14.
\<close>

lemma js_percentage_29_of_200: "js_percentage 29 200 = 14"
  by code_simp

lemma tally_count_le_total:
  "i < length (options p) \<Longrightarrow> tally_count p (options p ! i) \<le> total_count p"
  by (simp add: total_count_def member_le_sum_list)

lemma correct_count_le_total: "correct_count p \<le> total_count p"
proof (cases "nth_opt (options p) (correctAnswer p)")
  case None
  then show ?thesis by (simp add: correct_count_def)
next
  case (Some opt)
  then have "nat (correctAnswer p) < length (options p)" "opt = options p ! nat (correctAnswer p)"
    by (auto simp: nth_opt_def split: if_splits)
  with tally_count_le_total [of "nat (correctAnswer p)" p] Some show ?thesis
    by (simp add: correct_count_def)
qed

text \<open>
  C7, as amended. When \<open>endPoll\<close> runs on a poll, the final results hold under each option
  text the entry written for the last position \<open>i\<close> at which the text occurs in the option
  list: the tally count of the text (0 if it has none), the flag \<open>i = correctAnswer\<close>, and
  the percentage, which is 0 when \<open>totalResponses\<close> is 0 and otherwise the binary64 value of
  \<open>Math.round((count / totalResponses) * 100)\<close>. For fewer than \<open>2 ^ 44\<close> responses that
  value is the exact ratio times 100 rounded half up, except on a tie, where it is that
  number or the integer below it. The summary's \<open>correctPercentage\<close> is computed in the same
  way from the count of the correct option. With distinct option texts every position is
  a last one, so the flag is \<open>index = correctAnswer\<close> for each option. In particular, for a
  poll with options \<open>A\<close>, \<open>B\<close> and answer index 0 in which \<open>A\<close> and \<open>B\<close> were each chosen
  once, the final results are \<open>A\<close>: count 1, 50 percent, correct and \<open>B\<close>: count 1, 50
  percent, not correct, and \<open>correctPercentage\<close> is 50.
\<close>

theorem end_poll_aggregation:
  "(\<exists>fr. finalResults (end_poll now p) = Some fr \<and>
      (\<forall>i < length (options p). options p ! i \<notin> set (drop (Suc i) (options p)) \<longrightarrow>
         (\<exists>pct. map_of fr (options p ! i)
                  = Some \<lparr>fr_count = tally_count p (options p ! i), percentage = pct,
                          fr_isCorrect = (int i = correctAnswer p)\<rparr> \<and>
                pct = (if 0 < total_count p
                       then js_percentage (tally_count p (options p ! i)) (total_count p) else 0) \<and>
                (0 < total_count p \<and> total_count p < 2 ^ 44 \<longrightarrow>
                   round_half_up (tally_count p (options p ! i)) (total_count p)
                     - (if is_tie (tally_count p (options p ! i)) (total_count p) then 1 else 0)
                     \<le> pct \<and>
                   pct \<le> round_half_up (tally_count p (options p ! i)) (total_count p))))) \<and>
   (\<exists>cp. map_option correctPercentage (poll_summary (end_poll now p)) = Some cp \<and>
      cp = (if 0 < total_count p then js_percentage (correct_count p) (total_count p) else 0) \<and>
      (0 < total_count p \<and> total_count p < 2 ^ 44 \<longrightarrow>
         round_half_up (correct_count p) (total_count p)
           - (if is_tie (correct_count p) (total_count p) then 1 else 0) \<le> cp \<and>
         cp \<le> round_half_up (correct_count p) (total_count p))) \<and>
   (options p = [''A'', ''B''] \<and> correctAnswer p = 0 \<and>
    tally_count p ''A'' = 1 \<and> tally_count p ''B'' = 1 \<longrightarrow>
      finalResults (end_poll now p)
        = Some [(''A'', \<lparr>fr_count = 1, percentage = 50, fr_isCorrect = True\<rparr>),
                (''B'', \<lparr>fr_count = 1, percentage = 50, fr_isCorrect = False\<rparr>)] \<and>
      map_option correctPercentage (poll_summary (end_poll now p)) = Some 50)"
proof (intro conjI)
  let ?fr0 = "fst (tally_loop p (options p) 0 ([], 0, 0))"
  let ?fr = "if 0 < total_count p then percentage_loop (total_count p) (options p) ?fr0 else ?fr0"
  let ?pct = "\<lambda>c. if 0 < total_count p then js_percentage c (total_count p) else 0"
  have fin: "finalResults (end_poll now p) = Some ?fr"
    by (simp add: end_poll_unfold Let_def)
  have entry: "map_of ?fr (options p ! i)
           = Some \<lparr>fr_count = tally_count p (options p ! i),
                   percentage = ?pct (tally_count p (options p ! i)),
                   fr_isCorrect = (int i = correctAnswer p)\<rparr>"
    if "i < length (options p)" "options p ! i \<notin> set (drop (Suc i) (options p))" for i
    using tally_loop_entry [OF that, of p 0 "([], 0, 0)"] that(1)
    by (simp add: percentage_loop_map_of)
  have bounds: "round_half_up c (total_count p) - (if is_tie c (total_count p) then 1 else 0)
                  \<le> ?pct c \<and> ?pct c \<le> round_half_up c (total_count p)"
    if "c \<le> total_count p" "0 < total_count p" "total_count p < 2 ^ 44" for c
    using js_percentage_round [OF that(2) that(1) that(3)] that(2) by simp
  show "\<exists>fr. finalResults (end_poll now p) = Some fr \<and>
      (\<forall>i < length (options p). options p ! i \<notin> set (drop (Suc i) (options p)) \<longrightarrow>
         (\<exists>pct. map_of fr (options p ! i)
                  = Some \<lparr>fr_count = tally_count p (options p ! i), percentage = pct,
                          fr_isCorrect = (int i = correctAnswer p)\<rparr> \<and>
                pct = (if 0 < total_count p
                       then js_percentage (tally_count p (options p ! i)) (total_count p) else 0) \<and>
                (0 < total_count p \<and> total_count p < 2 ^ 44 \<longrightarrow>
                   round_half_up (tally_count p (options p ! i)) (total_count p)
                     - (if is_tie (tally_count p (options p ! i)) (total_count p) then 1 else 0)
                     \<le> pct \<and>
                   pct \<le> round_half_up (tally_count p (options p ! i)) (total_count p))))"
  proof (intro exI [of _ ?fr] conjI allI impI)
    show "finalResults (end_poll now p) = Some ?fr"
      by (rule fin)
  next
    fix i
    assume i: "i < length (options p)" "options p ! i \<notin> set (drop (Suc i) (options p))"
    show "\<exists>pct. map_of ?fr (options p ! i)
                  = Some \<lparr>fr_count = tally_count p (options p ! i), percentage = pct,
                          fr_isCorrect = (int i = correctAnswer p)\<rparr> \<and>
                pct = (if 0 < total_count p
                       then js_percentage (tally_count p (options p ! i)) (total_count p) else 0) \<and>
                (0 < total_count p \<and> total_count p < 2 ^ 44 \<longrightarrow>
                   round_half_up (tally_count p (options p ! i)) (total_count p)
                     - (if is_tie (tally_count p (options p ! i)) (total_count p) then 1 else 0)
                     \<le> pct \<and>
                   pct \<le> round_half_up (tally_count p (options p ! i)) (total_count p))"
      using entry [OF i] bounds [OF tally_count_le_total [OF i(1)]]
      by (intro exI [of _ "?pct (tally_count p (options p ! i))"]) blast
  qed
next
  let ?pct = "\<lambda>c. if 0 < total_count p then js_percentage c (total_count p) else 0"
  have "map_option correctPercentage (poll_summary (end_poll now p)) = Some (?pct (correct_count p))"
    by (simp add: end_poll_unfold Let_def)
  moreover have "round_half_up (correct_count p) (total_count p)
           - (if is_tie (correct_count p) (total_count p) then 1 else 0) \<le> ?pct (correct_count p) \<and>
         ?pct (correct_count p) \<le> round_half_up (correct_count p) (total_count p)"
    if "0 < total_count p" "total_count p < 2 ^ 44"
    using js_percentage_round [OF that(1) correct_count_le_total that(2)] that(1) by simp
  ultimately show "\<exists>cp. map_option correctPercentage (poll_summary (end_poll now p)) = Some cp \<and>
      cp = (if 0 < total_count p then js_percentage (correct_count p) (total_count p) else 0) \<and>
      (0 < total_count p \<and> total_count p < 2 ^ 44 \<longrightarrow>
         round_half_up (correct_count p) (total_count p)
           - (if is_tie (correct_count p) (total_count p) then 1 else 0) \<le> cp \<and>
         cp \<le> round_half_up (correct_count p) (total_count p))"
    by (intro exI [of _ "?pct (correct_count p)"]) blast
next
  show "options p = [''A'', ''B''] \<and> correctAnswer p = 0 \<and>
    tally_count p ''A'' = 1 \<and> tally_count p ''B'' = 1 \<longrightarrow>
      finalResults (end_poll now p)
        = Some [(''A'', \<lparr>fr_count = 1, percentage = 50, fr_isCorrect = True\<rparr>),
                (''B'', \<lparr>fr_count = 1, percentage = 50, fr_isCorrect = False\<rparr>)] \<and>
      map_option correctPercentage (poll_summary (end_poll now p)) = Some 50"
    by (simp add: end_poll_unfold Let_def total_count_def correct_count_def nth_opt_def
        js_percentage_half)
qed

text \<open>
  The run of the scenario from the initial state: creation, start, the two answers and
  ten firings of the timer; the last firing ends the poll. One of two is not a tie, and
  the exact rule gives 50 as well.
\<close>

theorem end_poll_aggregation_witness:
  "map_of (polls (run scenario_A init)) ''p1'' = Some (end_poll 13000 expiring_poll_A) \<and>
   options expiring_poll_A = [''A'', ''B''] \<and> correctAnswer expiring_poll_A = 0 \<and>
   tally_count expiring_poll_A ''A'' = 1 \<and> tally_count expiring_poll_A ''B'' = 1 \<and>
   finalResults (end_poll 13000 expiring_poll_A)
     = Some [(''A'', \<lparr>fr_count = 1, percentage = 50, fr_isCorrect = True\<rparr>),
             (''B'', \<lparr>fr_count = 1, percentage = 50, fr_isCorrect = False\<rparr>)] \<and>
   map_option correctPercentage (poll_summary (end_poll 13000 expiring_poll_A)) = Some 50 \<and>
   round_half_up 1 2 = 50 \<and> \<not> is_tie 1 2"
proof -
  have run: "map_of (polls (run scenario_A init)) ''p1'' = Some (end_poll 13000 expiring_poll_A)"
    by code_simp
  have hyp: "options expiring_poll_A = [''A'', ''B''] \<and> correctAnswer expiring_poll_A = 0 \<and>
             tally_count expiring_poll_A ''A'' = 1 \<and> tally_count expiring_poll_A ''B'' = 1"
    by code_simp
  have rule: "round_half_up 1 2 = 50 \<and> \<not> is_tie 1 2"
    by (simp add: round_half_up_def is_tie_def)
  with end_poll_aggregation [of 13000 expiring_poll_A] run hyp show ?thesis
    by blast
qed

text \<open>
  C7 as stated fails in two ways. When 23 of 40 participants choose \<open>A\<close>, the exact ratio
  is 57.5 and a half rounds up to 58, but the binary64 product is 57.49999999999999 and the
  code stores 57. When the option list holds the same text at positions 0 and 1 and the
  answer index is 0, the entry of that text carries the flag of position 1: the correct
  option is not marked correct.
\<close>

theorem end_poll_rule_counterexample:
  "map_option finalResults (map_of (polls (run forty_voters init)) ''p1'')
     = Some (Some [(''A'', \<lparr>fr_count = 23, percentage = 57, fr_isCorrect = True\<rparr>),
                   (''B'', \<lparr>fr_count = 17, percentage = 43, fr_isCorrect = False\<rparr>)]) \<and>
   round_half_up 23 40 = 58 \<and>
   map_option options (map_of (polls (run repeated_option init)) ''p1'')
     = Some [''Yes'', ''Yes''] \<and>
   map_option correctAnswer (map_of (polls (run repeated_option init)) ''p1'') = Some 0 \<and>
   map_option finalResults (map_of (polls (run repeated_option init)) ''p1'')
     = Some (Some [(''Yes'', \<lparr>fr_count = 1, percentage = 50, fr_isCorrect = False\<rparr>)])"
  by code_simp

subsection \<open>A second response\<close>

text \<open>
  C4, as amended. For an active poll and a participant who already has a recorded response
  for it, every further \<open>submitResponse\<close> call by that participant is rejected and leaves
  the whole state, and with it the poll's responses and tally, as it was. The error is
  ConflictError when the participant is not ejected and the selected option is one of the
  poll's options; an ejected participant gets ForbiddenError, and an option that is not
  among the poll's options gets ValidationError, because the handler tests ejection and
  the option before it looks for an earlier response.
\<close>

theorem submitResponse_again:
  assumes "map_of (polls s) pollId = Some p" and "isActive p"
    and "map_of (responses p) sid \<noteq> None"
  shows "submitResponse now pollId sid sname opt s
           = (Inl (if sid \<in> kickedOutStudents s then ForbiddenError
                   else if opt \<notin> set (options p) then ValidationError
                   else ConflictError), s)"
  using assms by (simp add: submitResponse_def)

text \<open>Participant \<open>s1\<close> answered \<open>A\<close> and now sends \<open>B\<close>.\<close>

theorem submitResponse_again_witness:
  "has_responded (run scenario_B init) ''p1'' ''s1'' \<and>
   submitResponse 3000 ''p1'' ''s1'' ''Ann'' ''B'' (run scenario_B init)
     = (Inl ConflictError, run scenario_B init)"
proof -
  have h: "has_responded (run scenario_B init) ''p1'' ''s1''"
    by code_simp
  then obtain p where p: "map_of (polls (run scenario_B init)) ''p1'' = Some p" "isActive p"
      "map_of (responses p) ''s1'' \<noteq> None"
    by (auto simp: has_responded_def split: option.splits)
  have k: "''s1'' \<notin> kickedOutStudents (run scenario_B init)"
    by code_simp
  have "map_option options (map_of (polls (run scenario_B init)) ''p1'') = Some [''A'', ''B'']"
    by code_simp
  with p have o: "''B'' \<in> set (options p)"
    by simp
  from submitResponse_again [OF p, of 3000 "''Ann''" "''B''"] k o h show ?thesis
    by simp
qed

text \<open>
  C4 as stated fails when the second request names a text that is not an option of the
  poll: the reply is the ValidationError of the option test, not a ConflictError.
\<close>

theorem submitResponse_again_counterexample:
  "has_responded (run scenario_B init) ''p1'' ''s1'' \<and>
   fst (submitResponse 3000 ''p1'' ''s1'' ''Ann'' ''Z'' (run scenario_B init))
     = Inl ValidationError"
  by code_simp

subsection \<open>Ejection\<close>

lemma kicked_step: "kickedOutStudents s \<subseteq> kickedOutStudents (step ev s)"
proof (cases ev)
  case (KickParticipant k sid)
  then show ?thesis
    by (auto simp: kickParticipant_def disconnect_def Let_def split: option.splits prod.splits)
qed (auto simp: createPoll_def startPoll_def submitResponse_def join_def tick_def endPoll_def
       connect_def joinTeacher_def joinParticipant_def sendMessage_def disconnect_def Let_def
       split: option.splits)

lemma kicked_run: "kickedOutStudents s \<subseteq> kickedOutStudents (run evs s)"
proof (induction evs rule: rev_induct)
  case Nil
  show ?case by (simp add: run_Nil)
next
  case (snoc ev evs)
  with kicked_step [of "run evs s" ev] show ?case
    by (auto simp: run_snoc)
qed

lemma kickParticipant_adds:
  "map_of (sockets s) k = Some sk \<Longrightarrow> sock_role sk = Some ''teacher'' \<Longrightarrow>
   sid \<in> kickedOutStudents (kickParticipant k sid s)"
  by (auto simp: kickParticipant_def disconnect_def Let_def split: option.splits prod.splits)

text \<open>
  C8, as amended. Once a presenter's \<open>kickParticipant\<close> has put a participant id into
  \<open>kickedOutStudents\<close>, the id stays there through every later run of events, whatever
  disconnects and joins it contains, and in every later state: \<open>submitResponse\<close> by that
  id is rejected with ForbiddenError; the HTTP join by that id is rejected, with
  ForbiddenError when id and name are non-empty and with ValidationError when one of them
  is empty (the handler tests the fields first); the socket join by that id is answered
  with the \<open>kickedOut\<close> notice. None of these calls changes the state.
\<close>

theorem ejection_permanent:
  assumes "map_of (sockets s) k = Some sk" and "sock_role sk = Some ''teacher''"
    and "s' = run evs (kickParticipant k sid s)"
  shows "sid \<in> kickedOutStudents s' \<and>
         join now sid sname s'
           = (Inl (if sid = [] \<or> sname = [] then ValidationError else ForbiddenError), s') \<and>
         submitResponse now pollId sid sname opt s' = (Inl ForbiddenError, s') \<and>
         (map_of (sockets s') k' \<noteq> None \<longrightarrow>
            joinParticipant now k' sid sname s' = (Some KickedOut, s'))"
proof -
  have "sid \<in> kickedOutStudents s'"
    using kickParticipant_adds [OF assms(1,2)] kicked_run assms(3) by blast
  then show ?thesis
    by (auto simp: join_def submitResponse_def joinParticipant_def)
qed

text \<open>
  The teacher on socket \<open>k1\<close> kicks \<open>s1\<close>; the participant's socket \<open>k2\<close> goes away
  and a new socket \<open>k3\<close> connects, from which \<open>s1\<close> tries again.
\<close>

theorem ejection_permanent_witness:
  "map_option sock_role (map_of (sockets (run teacher_online init)) ''k1'') = Some (Some ''teacher'') \<and>
   ''s1'' \<in> kickedOutStudents
      (run [Disconnect ''k2'', Connect ''k3'']
        (kickParticipant ''k1'' ''s1'' (run teacher_online init))) \<and>
   fst (join 5000 ''s1'' ''Ann''
      (run [Disconnect ''k2'', Connect ''k3'']
        (kickParticipant ''k1'' ''s1'' (run teacher_online init)))) = Inl ForbiddenError \<and>
   fst (submitResponse 5000 ''p1'' ''s1'' ''Ann'' ''B''
      (run [Disconnect ''k2'', Connect ''k3'']
        (kickParticipant ''k1'' ''s1'' (run teacher_online init)))) = Inl ForbiddenError \<and>
   fst (joinParticipant 5000 ''k3'' ''s1'' ''Ann''
      (run [Disconnect ''k2'', Connect ''k3'']
        (kickParticipant ''k1'' ''s1'' (run teacher_online init)))) = Some KickedOut"
proof -
  let ?s = "run teacher_online init"
  let ?s' = "run [Disconnect ''k2'', Connect ''k3''] (kickParticipant ''k1'' ''s1'' ?s)"
  have r: "map_option sock_role (map_of (sockets ?s) ''k1'') = Some (Some ''teacher'')"
    by code_simp
  then obtain sk where sk: "map_of (sockets ?s) ''k1'' = Some sk" "sock_role sk = Some ''teacher''"
    by auto
  have k3: "map_of (sockets ?s') ''k3'' \<noteq> None"
    by code_simp
  from ejection_permanent [where s' = "?s'" and now = 5000 and sname = "''Ann''"
      and pollId = "''p1''" and opt = "''B''" and k' = "''k3''", OF sk refl] k3 r
  show ?thesis
    by simp
qed

text \<open>
  C8 as stated fails for a join request of the ejected id that carries no name: the reply
  is the ValidationError of the field test.
\<close>

theorem ejection_permanent_counterexample:
  "''s1'' \<in> kickedOutStudents (run scenario_C init) \<and>
   fst (join 5000 ''s1'' [] (run scenario_C init)) = Inl ValidationError"
  by code_simp

subsection \<open>The frame of \<open>kickParticipant\<close>\<close>

lemma tick_cong:
  assumes "polls s1 = polls s2" and "timers s1 = timers s2"
  shows "polls (tick now pollId s1) = polls (tick now pollId s2) \<and>
         timers (tick now pollId s1) = timers (tick now pollId s2)"
  using assms by (simp add: tick_def endPoll_def Let_def split: option.splits)

lemma ticks_cong:
  "polls s1 = polls s2 \<Longrightarrow> timers s1 = timers s2 \<Longrightarrow>
   polls (run (ticks ts) s1) = polls (run (ticks ts) s2)"
proof (induction ts arbitrary: s1 s2)
  case Nil
  then show ?case by (simp add: ticks_def run_Nil)
next
  case (Cons t ts)
  obtain now pollId where t: "t = (now, pollId)" by (cases t) auto
  from tick_cong [OF Cons.prems, of now pollId] Cons.IH [of "tick now pollId s1" "tick now pollId s2"]
  show ?case
    using t by (simp add: ticks_def run_Cons)
qed

text \<open>
  C10. \<open>kickParticipant\<close> leaves the polls (responses, tally counts and respondent lists
  included), the history, the current poll, the chat log and the timers as they are; it
  only touches the ejected set, the roster and the connection of the participant.
  Whatever firings of timers follow, the polls they produce, final results and summaries
  included, are the same with and without the kick: a response recorded before the kick
  still counts.
\<close>

theorem kickParticipant_frame:
  "polls (kickParticipant k sid s) = polls s \<and>
   pollHistory (kickParticipant k sid s) = pollHistory s \<and>
   currentPoll (kickParticipant k sid s) = currentPoll s \<and>
   chatMessages (kickParticipant k sid s) = chatMessages s \<and>
   timers (kickParticipant k sid s) = timers s \<and>
   polls (run (ticks ts) (kickParticipant k sid s)) = polls (run (ticks ts) s)"
proof -
  have "pollHistory (kickParticipant k sid s) = pollHistory s"
    by (simp add: kickParticipant_def disconnect_def Let_def split: option.splits prod.splits)
  moreover have "chatMessages (kickParticipant k sid s) = chatMessages s"
    by (simp add: kickParticipant_def disconnect_def Let_def split: option.splits prod.splits)
  moreover have "polls (run (ticks ts) (kickParticipant k sid s)) = polls (run (ticks ts) s)"
    by (rule ticks_cong) (simp_all add: polls_kickParticipant timers_kickParticipant)
  ultimately show ?thesis
    by (simp add: polls_kickParticipant timers_kickParticipant currentPoll_kickParticipant)
qed

text \<open>
  Participant \<open>s1\<close> answered \<open>A\<close> and is kicked before the poll expires: the final
  results still count the answer.
\<close>

theorem kickParticipant_frame_witness:
  "''s1'' \<in> kickedOutStudents (kickParticipant ''k1'' ''s1'' (run teacher_online init)) \<and>
   map_option finalResults
     (map_of (polls (run (ticks ten_seconds)
                      (kickParticipant ''k1'' ''s1'' (run teacher_online init)))) ''p1'')
     = Some (Some [(''A'', \<lparr>fr_count = 1, percentage = 100, fr_isCorrect = True\<rparr>),
                   (''B'', \<lparr>fr_count = 0, percentage = 0, fr_isCorrect = False\<rparr>)])"
proof -
  have k: "''s1'' \<in> kickedOutStudents (kickParticipant ''k1'' ''s1'' (run teacher_online init))"
    by code_simp
  have v: "map_option finalResults
             (map_of (polls (run (ticks ten_seconds) (run teacher_online init))) ''p1'')
     = Some (Some [(''A'', \<lparr>fr_count = 1, percentage = 100, fr_isCorrect = True\<rparr>),
                   (''B'', \<lparr>fr_count = 0, percentage = 0, fr_isCorrect = False\<rparr>)])"
    by code_simp
  from kickParticipant_frame [of "''k1''" "''s1''" "run teacher_online init" ten_seconds]
  have "polls (run (ticks ten_seconds) (kickParticipant ''k1'' ''s1'' (run teacher_online init)))
          = polls (run (ticks ten_seconds) (run teacher_online init))"
    by simp
  with k v show ?thesis
    by simp
qed

subsection \<open>Votes counted and responses recorded\<close>

lemma set_update_cases:
  "x \<in> set (AList.update k v al) \<Longrightarrow> x = (k, v) \<or> x \<in> set al"
  by (induction al) (auto split: if_splits)

lemma list_all_update:
  "list_all P al \<Longrightarrow> P (k, v) \<Longrightarrow> list_all P (AList.update k v al)"
  by (induction al) auto

lemma length_update_new:
  "map_of al k = None \<Longrightarrow> length (AList.update k v al) = Suc (length al)"
  by (induction al) (auto split: if_splits)

lemma sum_update_new:
  "map_of al k = None \<Longrightarrow>
   sum_list (map f (AList.update k v al)) = sum_list (map f al) + (f (k, v) :: nat)"
  by (induction al) (auto split: if_splits)

lemma sum_update_old:
  "map_of al k = Some t \<Longrightarrow>
   sum_list (map f (AList.update k v al)) + f (k, t) = sum_list (map f al) + (f (k, v) :: nat)"
  by (induction al) (auto split: if_splits)

lemma init_results_zero_aux:
  "list_all (\<lambda>(k, t). count t = 0) r \<Longrightarrow>
   list_all (\<lambda>(k, t). count t = 0)
     (foldl (\<lambda>r opt. AList.update opt \<lparr>count = 0, participants = []\<rparr> r) r opts)"
  by (induction opts arbitrary: r) (simp_all add: list_all_update)

lemma sum_zero:
  "list_all (\<lambda>(k, t). count t = 0) r \<Longrightarrow> sum_list (map (\<lambda>(opt, t). count t) r) = 0"
  by (induction r) auto

lemma tally_sum_init_results: "sum_list (map (\<lambda>(opt, t). count t) (init_results opts)) = 0"
  unfolding init_results_def by (rule sum_zero, rule init_results_zero_aux) simp

lemma tally_ok_new_poll: "tally_ok (new_poll now uuid rq)"
  by (simp add: tally_ok_def tally_sum_def new_poll_def Let_def)

lemma tally_ok_start_poll: "tally_ok (start_poll now p)"
  by (simp add: tally_ok_def tally_sum_def start_poll_def tally_sum_init_results)

lemma tally_ok_end_poll: "tally_ok p \<Longrightarrow> tally_ok (end_poll now p)"
  by (simp add: tally_ok_def tally_sum_def end_poll_unfold Let_def)

lemma tally_ok_timeLeft: "tally_ok p \<Longrightarrow> tally_ok (p\<lparr>timeLeft := n\<rparr>)"
  by (simp add: tally_ok_def tally_sum_def)

lemma tally_ok_record_response:
  assumes "tally_ok p" and "map_of (responses p) sid = None"
  shows "tally_ok (record_response now sid sname opt p)"
proof -
  let ?f = "\<lambda>(opt, t). count (t :: tally)"
  let ?zero = "\<lparr>count = 0, participants = []\<rparr>"
  define r0 where "r0 = (case map_of (results p) opt of
                  None \<Rightarrow> AList.update opt ?zero (results p) | Some t \<Rightarrow> results p)"
  have s0: "sum_list (map ?f r0) = sum_list (map ?f (results p))"
    by (cases "map_of (results p) opt") (simp_all add: r0_def sum_update_new)
  obtain t where t: "map_of r0 opt = Some t"
    by (cases "map_of (results p) opt") (simp_all add: r0_def map_of_update_if)
  have "sum_list (map ?f (AList.update opt
          (t\<lparr>count := count t + 1, participants := participants t @ [(sid, sname)]\<rparr>) r0))
        = sum_list (map ?f r0) + 1"
    using sum_update_old [OF t, of ?f "t\<lparr>count := count t + 1, participants := participants t @ [(sid, sname)]\<rparr>"]
    by simp
  with s0 t assms show ?thesis
    by (simp add: tally_ok_def tally_sum_def record_response_def Let_def r0_def [symmetric]
        distinct_update length_update_new)
qed

lemma store_ok_step:
  assumes "store_ok s"
  shows "store_ok (step ev s)"
proof (cases ev)
  case (CreatePoll now uuid rq)
  with assms show ?thesis
    by (auto simp: store_ok_def createPoll_def Let_def list_all_update tally_ok_new_poll)
next
  case (StartPoll now pid tid)
  with assms show ?thesis
    by (auto simp: store_ok_def startPoll_def Let_def list_all_update tally_ok_start_poll
        split: option.splits)
next
  case (SubmitResponse now pid sid sname opt)
  show ?thesis
  proof (cases "map_of (polls s) pid")
    case None
    with assms SubmitResponse show ?thesis
      by (simp add: submitResponse_def)
  next
    case (Some p)
    then have "(pid, p) \<in> set (polls s)"
      by (rule map_of_SomeD)
    with assms have "tally_ok p"
      by (auto simp: store_ok_def list_all_iff)
    with assms SubmitResponse Some show ?thesis
      by (auto simp: store_ok_def submitResponse_def list_all_update tally_ok_record_response)
  qed
next
  case (Tick now pid)
  show ?thesis
  proof (cases "map_of (polls s) pid")
    case None
    with assms Tick show ?thesis
      by (simp add: tick_def)
  next
    case (Some p)
    then have "(pid, p) \<in> set (polls s)"
      by (rule map_of_SomeD)
    with assms have "tally_ok p"
      by (auto simp: store_ok_def list_all_iff)
    then have "tally_ok (p\<lparr>timeLeft := timeLeft p - 1\<rparr>)"
      "tally_ok (end_poll now (p\<lparr>timeLeft := timeLeft p - 1\<rparr>))"
      by (simp_all add: tally_ok_timeLeft tally_ok_end_poll)
    with assms Tick Some show ?thesis
      by (auto simp: store_ok_def tick_def endPoll_def Let_def list_all_update)
  qed
next
  case (KickParticipant k sid)
  have "pollHistory (kickParticipant k sid s) = pollHistory s"
    by (simp add: kickParticipant_def disconnect_def Let_def split: option.splits prod.splits)
  with assms KickParticipant show ?thesis
    by (simp add: store_ok_def polls_kickParticipant)
next
  case (Join now sid sname)
  with assms show ?thesis
    by (auto simp: store_ok_def join_def)
next
  case (Connect k)
  with assms show ?thesis
    by (auto simp: store_ok_def connect_def)
next
  case (JoinTeacher k tid tname)
  with assms show ?thesis
    by (auto simp: store_ok_def joinTeacher_def split: option.splits)
next
  case (JoinParticipant now k sid sname)
  with assms show ?thesis
    by (auto simp: store_ok_def joinParticipant_def split: option.splits)
next
  case (SendMessage now uuid k d)
  with assms show ?thesis
    by (auto simp: store_ok_def sendMessage_def Let_def split: option.splits)
next
  case (Disconnect k)
  with assms show ?thesis
    by (auto simp: store_ok_def disconnect_def Let_def split: option.splits)
qed

lemma store_ok_run: "store_ok (run evs init)"
proof (induction evs rule: rev_induct)
  case Nil
  show ?case by (simp add: run_Nil store_ok_def init_def)
next
  case (snoc ev evs)
  then show ?case by (simp add: run_snoc store_ok_step)
qed

lemma tally_ok_respondents: "tally_ok p \<Longrightarrow> tally_sum p = respondents p"
  by (simp add: tally_ok_def respondents_def distinct_remdups_id)

text \<open>
  The total that \<open>endPoll\<close> computes adds the count of the option text at each position
  of the option list. With distinct option texts the tally has one entry per position and
  the two sums agree.
\<close>

lemma keys_init_results_aux:
  "distinct (map fst r @ opts) \<Longrightarrow>
   map fst (foldl (\<lambda>r opt. AList.update opt \<lparr>count = 0, participants = []\<rparr> r) r opts)
     = map fst r @ opts"
proof (induction opts arbitrary: r)
  case Nil
  show ?case by simp
next
  case (Cons a opts)
  let ?r = "AList.update a \<lparr>count = 0, participants = []\<rparr> r"
  from Cons.prems have keys: "map fst ?r = map fst r @ [a]"
    by (simp add: update_keys)
  with Cons.prems have "distinct (map fst ?r @ opts)"
    by auto
  from Cons.IH [OF this] keys show ?case
    by simp
qed

lemma keys_init_results: "distinct opts \<Longrightarrow> map fst (init_results opts) = opts"
  using keys_init_results_aux [of "[]" opts] by (simp add: init_results_def)

lemma summary_ok_new_poll: "summary_ok (new_poll now uuid rq)"
  by (simp add: summary_ok_def new_poll_def Let_def)

lemma summary_ok_start_poll: "summary_ok (start_poll now p)"
  by (simp add: summary_ok_def start_poll_def keys_init_results)

lemma tally_count_cong: "results q = results p \<Longrightarrow> tally_count q = tally_count p"
  by (rule ext) (simp add: tally_count_def)

lemma total_count_cong:
  "results q = results p \<Longrightarrow> options q = options p \<Longrightarrow> total_count q = total_count p"
  using tally_count_cong [of q p] by (simp add: total_count_def)

lemma total_count_end_poll: "total_count (end_poll now p) = total_count p"
  by (rule total_count_cong) (simp_all add: end_poll_unfold Let_def)

lemma summary_ok_end_poll:
  assumes "summary_ok p"
  shows "summary_ok (end_poll now p)"
proof -
  have frame: "results (end_poll now p) = results p" "options (end_poll now p) = options p"
    "\<not> isActive (end_poll now p)"
    by (simp_all add: end_poll_unfold Let_def)
  have "map_option totalResponses (poll_summary (end_poll now p)) = Some (total_count p)"
    by (simp add: end_poll_unfold Let_def)
  then have tot: "\<forall>sm. poll_summary (end_poll now p) = Some sm \<longrightarrow>
                   totalResponses sm = total_count (end_poll now p)"
    by (auto simp: total_count_end_poll)
  from assms have "distinct (options p) \<longrightarrow>
      map fst (results p) = options p \<or> results p = []"
    by (auto simp: summary_ok_def)
  with tot frame(3) show ?thesis
    unfolding summary_ok_def frame(1,2) by blast
qed

lemma summary_ok_timeLeft: "summary_ok p \<Longrightarrow> summary_ok (p\<lparr>timeLeft := n\<rparr>)"
proof -
  have "total_count (p\<lparr>timeLeft := n\<rparr>) = total_count p"
    by (rule total_count_cong) simp_all
  then show "summary_ok p \<Longrightarrow> summary_ok (p\<lparr>timeLeft := n\<rparr>)"
    by (simp add: summary_ok_def)
qed

lemma summary_ok_record_response:
  assumes "summary_ok p" and "isActive p" and "opt \<in> set (options p)"
  shows "summary_ok (record_response now sid sname opt p)"
proof -
  have "map fst (results (record_response now sid sname opt p)) = map fst (results p)"
    if keys: "map fst (results p) = options p"
  proof -
    from keys assms(3) have mem: "opt \<in> set (map fst (results p))"
      by simp
    then have "map_of (results p) opt \<noteq> None"
      by (simp add: map_of_eq_None_iff)
    then obtain t where "map_of (results p) opt = Some t"
      by auto
    with mem show ?thesis
      by (simp add: record_response_def Let_def update_keys)
  qed
  with assms(1,2) show ?thesis
    by (simp add: summary_ok_def record_response_def Let_def)
qed

lemma sum_tally_keys:
  assumes "distinct (map fst al)"
  shows "sum_list (map (\<lambda>k. case map_of al k of None \<Rightarrow> 0 | Some t \<Rightarrow> count t) (map fst al))
           = sum_list (map (\<lambda>(k, t). count t) al)"
proof -
  have pt: "(case map_of al (fst x) of None \<Rightarrow> 0 | Some t \<Rightarrow> count t) = (case x of (k, t) \<Rightarrow> count t)"
    if "x \<in> set al" for x
  proof -
    obtain k t where x: "x = (k, t)" by (cases x) auto
    with that have "map_of al k = Some t"
      by (simp add: map_of_is_SomeI [OF assms])
    with x show ?thesis by simp
  qed
  have eq: "map ((\<lambda>k. case map_of al k of None \<Rightarrow> 0 | Some t \<Rightarrow> count t) \<circ> fst) al
               = map (\<lambda>(k, t). count t) al"
    by (rule map_cong) (simp_all add: pt)
  show ?thesis
    unfolding map_map eq ..
qed

lemma total_count_tally_sum:
  assumes "summary_ok p" and "distinct (options p)"
  shows "total_count p = tally_sum p"
proof -
  from assms have "map fst (results p) = options p \<or> results p = []"
    by (auto simp: summary_ok_def)
  then show ?thesis
  proof
    assume "map fst (results p) = options p"
    with assms(2) sum_tally_keys [of "results p"] show ?thesis
      by (simp add: total_count_def tally_sum_def tally_count_def [abs_def])
  next
    assume "results p = []"
    then show ?thesis
      by (simp add: total_count_def tally_sum_def tally_count_def [abs_def])
  qed
qed

lemma pollHistory_kickParticipant: "pollHistory (kickParticipant k sid s) = pollHistory s"
  by (simp add: kickParticipant_def disconnect_def Let_def split: option.splits prod.splits)

lemma summaries_ok_step:
  assumes "summaries_ok s"
  shows "summaries_ok (step ev s)"
proof (cases ev)
  case (CreatePoll now uuid rq)
  with assms show ?thesis
    by (auto simp: summaries_ok_def createPoll_def Let_def list_all_update summary_ok_new_poll)
next
  case (StartPoll now pid tid)
  with assms show ?thesis
    by (auto simp: summaries_ok_def startPoll_def Let_def list_all_update summary_ok_start_poll
        split: option.splits)
next
  case (SubmitResponse now pid sid sname opt)
  show ?thesis
  proof (cases "map_of (polls s) pid")
    case None
    with assms SubmitResponse show ?thesis
      by (simp add: submitResponse_def)
  next
    case (Some p)
    then have "(pid, p) \<in> set (polls s)"
      by (rule map_of_SomeD)
    with assms have "summary_ok p"
      by (auto simp: summaries_ok_def list_all_iff)
    with assms SubmitResponse Some show ?thesis
      by (auto simp: summaries_ok_def submitResponse_def list_all_update
          summary_ok_record_response)
  qed
next
  case (Tick now pid)
  show ?thesis
  proof (cases "map_of (polls s) pid")
    case None
    with assms Tick show ?thesis
      by (simp add: tick_def)
  next
    case (Some p)
    then have "(pid, p) \<in> set (polls s)"
      by (rule map_of_SomeD)
    with assms have "summary_ok p"
      by (auto simp: summaries_ok_def list_all_iff)
    then have "summary_ok (p\<lparr>timeLeft := timeLeft p - 1\<rparr>)"
      "summary_ok (end_poll now (p\<lparr>timeLeft := timeLeft p - 1\<rparr>))"
      by (simp_all add: summary_ok_timeLeft summary_ok_end_poll)
    with assms Tick Some show ?thesis
      by (auto simp: summaries_ok_def tick_def endPoll_def Let_def list_all_update)
  qed
next
  case (KickParticipant k sid)
  with assms show ?thesis
    by (simp add: summaries_ok_def polls_kickParticipant pollHistory_kickParticipant)
next
  case (Join now sid sname)
  with assms show ?thesis
    by (auto simp: summaries_ok_def join_def)
next
  case (Connect k)
  with assms show ?thesis
    by (auto simp: summaries_ok_def connect_def)
next
  case (JoinTeacher k tid tname)
  with assms show ?thesis
    by (auto simp: summaries_ok_def joinTeacher_def split: option.splits)
next
  case (JoinParticipant now k sid sname)
  with assms show ?thesis
    by (auto simp: summaries_ok_def joinParticipant_def split: option.splits)
next
  case (SendMessage now uuid k d)
  with assms show ?thesis
    by (auto simp: summaries_ok_def sendMessage_def Let_def split: option.splits)
next
  case (Disconnect k)
  with assms show ?thesis
    by (auto simp: summaries_ok_def disconnect_def Let_def split: option.splits)
qed

lemma summaries_ok_run: "summaries_ok (run evs init)"
proof (induction evs rule: rev_induct)
  case Nil
  show ?case by (simp add: run_Nil init_def summaries_ok_def)
next
  case (snoc ev evs)
  then show ?case by (simp add: run_snoc summaries_ok_step)
qed

lemma ended_summary_total:
  assumes "summary_ok p" and "state_of p = Ended"
  shows "map_option totalResponses (poll_summary p) = Some (total_count p)"
proof -
  from assms(2) obtain sm where sm: "poll_summary p = Some sm" "\<not> isActive p"
    by (auto simp: state_of_def split: if_splits)
  with assms(1) have "totalResponses sm = total_count p"
    by (simp add: summary_ok_def)
  with sm show ?thesis by simp
qed

text \<open>
  C5, as amended. In every state the engine reaches from its initial state, by any sequence
  of events, every stored poll that has ended, and every snapshot that \<open>endPoll\<close> pushed
  to the history, has a tally (\<open>poll.results\<close>, one entry per option text) whose counts sum
  to the number of distinct participant ids among its responses. The sum taken option by
  option over the option list, which is the \<open>totalResponses\<close> of the summary, equals that
  number when the option texts of the poll are distinct.
\<close>

theorem ended_poll_tally:
  "(map_of (polls (run evs init)) pollId = Some p \<and> state_of p = Ended \<longrightarrow>
      tally_sum p = respondents p \<and>
      map_option totalResponses (poll_summary p) = Some (total_count p) \<and>
      (distinct (options p) \<longrightarrow> total_count p = respondents p)) \<and>
   (\<forall>h \<in> set (pollHistory (run evs init)).
      tally_sum (h_poll h) = respondents (h_poll h) \<and>
      (distinct (options (h_poll h)) \<longrightarrow> total_count (h_poll h) = respondents (h_poll h)))"
proof (intro conjI impI ballI)
  assume a: "map_of (polls (run evs init)) pollId = Some p \<and> state_of p = Ended"
  then have mem: "(pollId, p) \<in> set (polls (run evs init))"
    by (simp add: map_of_SomeD)
  with store_ok_run [of evs] have "tally_ok p"
    by (auto simp: store_ok_def list_all_iff)
  then show t: "tally_sum p = respondents p"
    by (rule tally_ok_respondents)
  from mem summaries_ok_run [of evs] have ok: "summary_ok p"
    by (auto simp: summaries_ok_def list_all_iff)
  with a show "map_option totalResponses (poll_summary p) = Some (total_count p)"
    by (simp add: ended_summary_total)
  assume "distinct (options p)"
  with ok have "total_count p = tally_sum p"
    by (rule total_count_tally_sum)
  with t show "total_count p = respondents p"
    by simp
next
  fix h
  assume h: "h \<in> set (pollHistory (run evs init))"
  with store_ok_run [of evs] have "tally_ok (h_poll h)"
    by (auto simp: store_ok_def list_all_iff)
  then show t: "tally_sum (h_poll h) = respondents (h_poll h)"
    by (rule tally_ok_respondents)
  assume d: "distinct (options (h_poll h))"
  from h summaries_ok_run [of evs] have "summary_ok (h_poll h)"
    by (auto simp: summaries_ok_def list_all_iff)
  then have "total_count (h_poll h) = tally_sum (h_poll h)"
    using d by (rule total_count_tally_sum)
  with t show "total_count (h_poll h) = respondents (h_poll h)"
    by simp
qed

text \<open>The poll of the scenario after expiry: two votes counted, two responses.\<close>

theorem ended_poll_tally_witness:
  "map_of (polls (run scenario_A init)) ''p1'' = Some (end_poll 13000 expiring_poll_A) \<and>
   state_of (end_poll 13000 expiring_poll_A) = Ended \<and>
   distinct (options (end_poll 13000 expiring_poll_A)) \<and>
   respondents (end_poll 13000 expiring_poll_A) = 2 \<and>
   tally_sum (end_poll 13000 expiring_poll_A) = 2 \<and>
   total_count (end_poll 13000 expiring_poll_A) = 2 \<and>
   map_option totalResponses (poll_summary (end_poll 13000 expiring_poll_A)) = Some 2 \<and>
   map (\<lambda>h. tally_sum (h_poll h)) (pollHistory (run scenario_A init)) = [2]"
proof -
  have a: "map_of (polls (run scenario_A init)) ''p1'' = Some (end_poll 13000 expiring_poll_A)"
    by code_simp
  have b: "state_of (end_poll 13000 expiring_poll_A) = Ended"
    by code_simp
  have c: "respondents (end_poll 13000 expiring_poll_A) = 2"
    by code_simp
  have d: "map h_poll (pollHistory (run scenario_A init)) = [end_poll 13000 expiring_poll_A]"
    by code_simp
  have e: "distinct (options (end_poll 13000 expiring_poll_A))"
    by code_simp
  from ended_poll_tally [of scenario_A "''p1''" "end_poll 13000 expiring_poll_A"] a b c e
  have f: "tally_sum (end_poll 13000 expiring_poll_A) = 2"
    "total_count (end_poll 13000 expiring_poll_A) = 2"
    "map_option totalResponses (poll_summary (end_poll 13000 expiring_poll_A)) = Some 2"
    by auto
  have "map (\<lambda>h. tally_sum (h_poll h)) (pollHistory (run scenario_A init))
          = map tally_sum (map h_poll (pollHistory (run scenario_A init)))"
    by simp
  with a b c d e f show ?thesis
    by simp
qed

text \<open>
  C5 as stated fails for the sum over the option list: the options \<open>Yes\<close> and \<open>Yes\<close> with
  a trailing blank are stored as the same text twice, one participant answers, and the
  counts of the two options add up to 2.
\<close>

theorem ended_poll_tally_counterexample:
  "map_option state_of (map_of (polls (run repeated_option init)) ''p1'') = Some Ended \<and>
   map_option options (map_of (polls (run repeated_option init)) ''p1'') = Some [''Yes'', ''Yes''] \<and>
   map_option total_count (map_of (polls (run repeated_option init)) ''p1'') = Some 2 \<and>
   map_option respondents (map_of (polls (run repeated_option init)) ''p1'') = Some 1"
  by code_simp

subsection \<open>The lifecycle of a poll\<close>

lemma state_of_start_poll: "state_of (start_poll now p) = Active"
  by (simp add: state_of_def start_poll_def)

lemma state_of_end_poll: "state_of (end_poll now p) = Ended"
  by (simp add: state_of_def end_poll_unfold Let_def)

lemma state_of_record_response: "state_of (record_response now sid sname opt p) = state_of p"
  by (simp add: state_of_def record_response_def Let_def)

lemma state_of_timeLeft: "state_of (p\<lparr>timeLeft := n\<rparr>) = state_of p"
  by (simp add: state_of_def)

lemma init_results_fold:
  "distinct (map fst r) \<Longrightarrow> list_all (\<lambda>(opt, t). count t = 0 \<and> participants t = []) r \<Longrightarrow>
   (let r' = foldl (\<lambda>r opt. AList.update opt \<lparr>count = 0, participants = []\<rparr> r) r opts
    in set (map fst r') = set (map fst r) \<union> set opts \<and> distinct (map fst r') \<and>
       list_all (\<lambda>(opt, t). count t = 0 \<and> participants t = []) r')"
proof (induction opts arbitrary: r)
  case Nil
  then show ?case by simp
next
  case (Cons a opts)
  let ?r = "AList.update a \<lparr>count = 0, participants = []\<rparr> r"
  from Cons.prems have "distinct (map fst ?r)"
    "list_all (\<lambda>(opt, t). count t = 0 \<and> participants t = []) ?r"
    by (simp_all add: distinct_update list_all_update)
  from Cons.IH [OF this] show ?case
    by (auto simp: Let_def dom_update)
qed

lemma fresh_tally_start_poll: "fresh_tally (start_poll now p)"
  using init_results_fold [of "[]" "options p"]
  by (simp add: fresh_tally_def start_poll_def init_results_def Let_def)

lemma options_start_poll: "options (start_poll now p) = options p"
  by (simp add: start_poll_def)

text \<open>
  C2, as amended. A stored poll stays stored under every event (\<open>uuidv4()\<close> is taken not
  to return the id of a stored poll). A poll that has ended stays Ended under every event
  except a start request for its id sent with its creator's id: \<open>startPoll\<close> only refuses
  a poll that is active, so that request makes the ended poll Active again, with the same
  options, no response recorded and a tally of one zero entry per option text. An Active
  poll stays Active under every event except a firing of its own timer, which is the only
  way out of Active and leads to Ended.
\<close>

theorem lifecycle_transitions:
  assumes "map_of (polls s) pollId = Some p" and "\<not> creates ev pollId"
  shows "\<exists>p'. map_of (polls (step ev s)) pollId = Some p' \<and>
           (state_of p = Ended \<longrightarrow>
              (if starts ev pollId (teacherId p)
               then state_of p' = Active \<and> fresh_tally p' \<and> options p' = options p
               else state_of p' = Ended)) \<and>
           (state_of p = Active \<longrightarrow>
              state_of p' = Active \<or> (fires ev pollId \<and> state_of p' = Ended))"
proof (cases ev)
  case (CreatePoll now uuid rq)
  with assms show ?thesis
    by (auto simp: createPoll_def Let_def map_of_update_if)
next
  case (StartPoll now pid tid)
  show ?thesis
  proof (cases "pid = pollId")
    case True
    have "isActive p \<Longrightarrow> state_of p = Active"
      by (simp add: state_of_def)
    with assms StartPoll True show ?thesis
      by (auto simp: startPoll_def Let_def map_of_update_if state_of_start_poll
          fresh_tally_start_poll options_start_poll)
  next
    case False
    with assms StartPoll show ?thesis
      by (auto simp: startPoll_def Let_def map_of_update_if split: option.splits)
  qed
next
  case (SubmitResponse now pid sid sname opt)
  show ?thesis
  proof (cases "pid = pollId")
    case True
    with assms SubmitResponse show ?thesis
      by (auto simp: submitResponse_def map_of_update_if state_of_record_response)
  next
    case False
    with assms SubmitResponse show ?thesis
      by (auto simp: submitResponse_def map_of_update_if split: option.splits)
  qed
next
  case (Tick now pid)
  show ?thesis
  proof (cases "pid = pollId")
    case True
    with assms Tick show ?thesis
      by (auto simp: tick_def endPoll_def Let_def map_of_update_if state_of_end_poll
          state_of_timeLeft)
  next
    case False
    with assms Tick show ?thesis
      by (auto simp: tick_def endPoll_def Let_def map_of_update_if split: option.splits)
  qed
next
  case (KickParticipant k sid)
  with assms show ?thesis
    by (simp add: polls_kickParticipant)
next
  case (Join now sid sname)
  with assms show ?thesis
    by (auto simp: join_def)
next
  case (Connect k)
  with assms show ?thesis
    by (auto simp: connect_def)
next
  case (JoinTeacher k tid tname)
  with assms show ?thesis
    by (auto simp: joinTeacher_def split: option.splits)
next
  case (JoinParticipant now k sid sname)
  with assms show ?thesis
    by (auto simp: joinParticipant_def split: option.splits)
next
  case (SendMessage now uuid k d)
  with assms show ?thesis
    by (auto simp: sendMessage_def Let_def split: option.splits)
next
  case (Disconnect k)
  with assms show ?thesis
    by (auto simp: disconnect_def Let_def split: option.splits)
qed

text \<open>
  The poll of the scenario has ended with two responses; its creator starts it again, and
  the responses and the votes are gone.
\<close>

theorem lifecycle_transitions_witness:
  "map_of (polls (run scenario_A init)) ''p1'' = Some (end_poll 13000 expiring_poll_A) \<and>
   \<not> creates (StartPoll 14000 ''p1'' ''t1'') ''p1'' \<and>
   state_of (end_poll 13000 expiring_poll_A) = Ended \<and>
   responses (end_poll 13000 expiring_poll_A) \<noteq> [] \<and>
   starts (StartPoll 14000 ''p1'' ''t1'') ''p1'' (teacherId (end_poll 13000 expiring_poll_A)) \<and>
   (\<exists>p'. map_of (polls (step (StartPoll 14000 ''p1'' ''t1'') (run scenario_A init))) ''p1''
            = Some p' \<and>
         state_of p' = Active \<and> fresh_tally p' \<and> options p' = [''A'', ''B''])"
proof -
  have a: "map_of (polls (run scenario_A init)) ''p1'' = Some (end_poll 13000 expiring_poll_A)"
    by code_simp
  have b: "\<not> creates (StartPoll 14000 ''p1'' ''t1'') ''p1''"
    by simp
  have c: "state_of (end_poll 13000 expiring_poll_A) = Ended"
    by code_simp
  have d: "starts (StartPoll 14000 ''p1'' ''t1'') ''p1'' (teacherId (end_poll 13000 expiring_poll_A))"
    by code_simp
  have e: "responses (end_poll 13000 expiring_poll_A) \<noteq> []"
    "options (end_poll 13000 expiring_poll_A) = [''A'', ''B'']"
    by code_simp+
  from lifecycle_transitions [OF a b] c d e(2)
  have "\<exists>p'. map_of (polls (step (StartPoll 14000 ''p1'' ''t1'') (run scenario_A init))) ''p1''
            = Some p' \<and>
         state_of p' = Active \<and> fresh_tally p' \<and> options p' = [''A'', ''B'']"
    by auto
  with a b c d e(1) show ?thesis
    by blast
qed

text \<open>
  C2 as stated fails on the same run: after expiry the poll is Ended, and a start request
  of its creator takes it out of Ended.
\<close>

theorem ended_poll_restarts:
  "map_option state_of (map_of (polls (run scenario_A init)) ''p1'') = Some Ended \<and>
   map_option state_of
     (map_of (polls (run (scenario_A @ [StartPoll 14000 ''p1'' ''t1'']) init)) ''p1'')
     = Some Active"
  by code_simp

end
